theory Spec2Isabelle
  imports Main "HOL-Library.Word" "HOL-Library.AList"
begin

section \<open>Data model of \<open>lib/connection.js\<close>\<close>

text \<open>
  A Node \<open>Buffer\<close> is a sequence of bytes. Everything thrown by the code is a value of
  \<open>error\<close>: the two JavaScript built-in errors the code can run into, and one constructor
  for each \<open>throw Error(...)\<close> of the file (the message's variable part is the argument).
\<close>

type_synonym buffer = "8 word list"

datatype pname = Open | Begin | Attach | Flow | Transfer | Disposition | Detach | End | Close

datatype error =
    TypeError
  | RangeError
  | Codec_error
  | Open_already_received
  | Close_already_received
  | Invalid_remote_channel nat
  | Invalid_channel pname nat

text \<open>
  A performative is an object with a descriptor and named fields; a field that is not
  there reads as \<open>undefined\<close>, here \<open>None\<close>. Only the fields \<open>connection.js\<close> reads or
  writes are kept.
\<close>

record performative =
  descriptor :: pname
  remote_channel :: "nat option"
  container_id :: "string option"

record frame =
  channel :: nat
  performative :: performative

record header =
  protocol_id :: nat
  major :: nat
  minor :: nat
  revision :: nat

text \<open>
  The context object built by \<open>_context\<close>: a reference to the connection (its id stands
  for the object) and, when there is one, to the container.
\<close>

record ev_context =
  ctx_connection :: string
  ctx_container :: "string option"

text \<open>
  Modelled from the spec: \<open>session.js\<close> is not among the sources. A session is bound to the
  local channel given to its constructor, carries the \<open>remote_channel\<close> field of its local
  begin declaration, and has the handlers \<open>on_begin\<close>, \<open>on_end\<close>, ... and \<open>_process\<close>
  (flush own pending output). The handlers are modelled by the log of the calls received,
  and the pending output by the list of performatives still to be written.
\<close>

record session =
  ssn_channel :: nat
  begin_remote_channel :: "nat option"
  received :: "(pname \<times> frame) list"
  outgoing :: "performative list"

definition Session :: "nat \<Rightarrow> session" where
  "Session i = \<lparr>ssn_channel = i, begin_remote_channel = None, received = [], outgoing = []\<rparr>"

text \<open>
  The transport (a Node socket) records what is written to it and whether \<open>end()\<close> was
  called. The container is the optional parent whose \<open>dispatch\<close> receives the events
  that have no local listener.
\<close>

record socket =
  written :: "buffer list"
  ended :: bool

record container =
  cont_id :: string
  cont_dispatched :: "(string \<times> ev_context) list"

text \<open>
  The connection object. \<open>sessions\<close> is the store of session objects: both channel maps
  hold indices into it, so that the two maps can refer to the same session. The local
  channel map is an association list (its keys are enumerated by \<open>_process\<close> and
  searched by \<open>create_session\<close>). Fields the constructor leaves unset are \<open>None\<close>.
  \<open>listeners\<close> and \<open>emitted\<close> stand for the inherited EventEmitter: the listeners
  registered per event name, and the log of listener invocations. \<open>next_tick\<close> counts the
  \<open>_process\<close> callbacks this connection has queued with \<open>process.nextTick\<close>.
\<close>

record 's connection =
  options_id :: string
  options_container_id :: "string option"
  container :: "container option"
  registered :: bool
  state :: 's
  local_channel_map :: "(nat \<times> nat) list"
  remote_channel_map :: "nat \<rightharpoonup> nat"
  local_open :: performative
  local_close :: performative
  remote_open :: "performative option"
  remote_close :: "performative option"
  socket :: "socket option"
  pending :: "buffer list option"
  previous_input :: "buffer option"
  header_received :: "header option"
  sessions :: "session list"
  listeners :: "string \<Rightarrow> nat list"
  emitted :: "(nat \<times> string \<times> ev_context) list"
  next_tick :: nat

text \<open>
  The collaborators the file requires but does not define are parameters: the state
  tracker (\<open>endpoint.js\<close>), with its state of type \<open>'s\<close>, and the codec (\<open>frames.js\<close>).
  A tracker method that answers and may change the tracker returns both.
\<close>

record 's collab =
  st_new :: 's
  st_open :: "'s \<Rightarrow> bool \<times> 's"
  st_close :: "'s \<Rightarrow> bool \<times> 's"
  st_is_open :: "'s \<Rightarrow> bool"
  st_is_closed :: "'s \<Rightarrow> bool"
  st_need_open :: "'s \<Rightarrow> bool \<times> 's"
  st_need_close :: "'s \<Rightarrow> bool \<times> 's"
  st_has_settled :: "'s \<Rightarrow> bool"
  st_remote_opened :: "'s \<Rightarrow> bool \<times> 's"
  st_remote_closed :: "'s \<Rightarrow> bool \<times> 's"
  read_header :: "buffer \<Rightarrow> error + header"
  read_frame :: "buffer \<Rightarrow> error + frame"
  write_header :: "header \<Rightarrow> buffer"
  write_amqp_frame :: "nat \<Rightarrow> performative \<Rightarrow> buffer"

text \<open>
  A call either returns or throws; in both cases the mutations made so far stay, so both
  outcomes carry the connection.
\<close>

datatype 'a result = Done 'a | Thrown error 'a

fun result_state :: "'a result \<Rightarrow> 'a" where
  "result_state (Done c) = c"
| "result_state (Thrown e c) = c"

fun is_thrown :: "'a result \<Rightarrow> bool" where
  "is_thrown (Done c) = False"
| "is_thrown (Thrown e c) = True"

section \<open>Constructor, dispatch and scheduling\<close>

text \<open>
  \<open>new Connection(options, container)\<close>, for options without \<open>id\<close> and
  \<open>container_id\<close>. The id and the generated container id come from a global counter and
  a uuid generator; they are arguments here, as are the listeners the application
  registers on the emitter.
\<close>

definition Connection ::
  "'s collab \<Rightarrow> string \<Rightarrow> string \<Rightarrow> container option \<Rightarrow> (string \<Rightarrow> nat list) \<Rightarrow> 's connection" where
  "Connection E cid uuid cont ls =
     \<lparr>options_id = cid,
      options_container_id = (case cont of None \<Rightarrow> Some uuid | Some k \<Rightarrow> None),
      container = cont,
      registered = False,
      state = st_new E,
      local_channel_map = [],
      remote_channel_map = Map.empty,
      local_open = \<lparr>descriptor = Open, remote_channel = None,
                    container_id = (case cont of None \<Rightarrow> Some uuid | Some k \<Rightarrow> Some (cont_id k))\<rparr>,
      local_close = \<lparr>descriptor = Close, remote_channel = None, container_id = None\<rparr>,
      remote_open = None,
      remote_close = None,
      socket = None,
      pending = None,
      previous_input = None,
      header_received = None,
      sessions = [],
      listeners = ls,
      emitted = [],
      next_tick = 0\<rparr>"

definition dispatch :: "string \<Rightarrow> ev_context \<Rightarrow> 's connection \<Rightarrow> 's connection" where
  "dispatch name ctx c =
     (if listeners c name \<noteq> [] then
        c\<lparr>emitted := emitted c @ map (\<lambda>l. (l, name, ctx)) (listeners c name)\<rparr>
      else
        (case container c of
           Some k \<Rightarrow> c\<lparr>container := Some (k\<lparr>cont_dispatched := cont_dispatched k @ [(name, ctx)]\<rparr>)\<rparr>
         | None \<Rightarrow> c))"

definition conn_context :: "'s connection \<Rightarrow> ev_context" where
  \<comment> \<open>\<open>_context()\<close>, called without argument\<close>
  "conn_context c =
     \<lparr>ctx_connection = options_id c, ctx_container = map_option cont_id (container c)\<rparr>"

definition conn_register :: "'s connection \<Rightarrow> 's connection" where
  \<comment> \<open>\<open>_register\<close>\<close>
  "conn_register c =
     (if \<not> registered c then c\<lparr>registered := True, next_tick := Suc (next_tick c)\<rparr> else c)"

definition open_conn :: "'s collab \<Rightarrow> 's connection \<Rightarrow> 's connection" where
  \<comment> \<open>\<open>open\<close> (an Isabelle keyword; \<open>close\<close> and \<open>output\<close> are named alike)\<close>
  "open_conn E c =
     (let (b, s) = st_open E (state c); c1 = c\<lparr>state := s\<rparr>
      in if b then conn_register c1 else c1)"

definition close_conn :: "'s collab \<Rightarrow> 's connection \<Rightarrow> 's connection" where
  \<comment> \<open>\<open>close\<close>\<close>
  "close_conn E c =
     (let (b, s) = st_close E (state c); c1 = c\<lparr>state := s\<rparr>
      in if b then conn_register c1 else c1)"

definition is_open :: "'s collab \<Rightarrow> 's connection \<Rightarrow> bool" where
  "is_open E c = st_is_open E (state c)"

definition is_closed :: "'s collab \<Rightarrow> 's connection \<Rightarrow> bool" where
  "is_closed E c = st_is_closed E (state c)"

section \<open>Output\<close>

text \<open>\<open>output\<close>, \<open>_write_frame\<close>, \<open>_write_open\<close>, \<open>_write_close\<close> and \<open>init\<close>.\<close>

definition socket_write :: "buffer list \<Rightarrow> socket \<Rightarrow> socket" where
  "socket_write bs s = s\<lparr>written := written s @ bs\<rparr>"

definition output_conn :: "'s collab \<Rightarrow> buffer \<Rightarrow> 's connection \<Rightarrow> 's connection result" where
  "output_conn E buf c =
     (case socket c of
        Some s \<Rightarrow>
          (case pending c of
             None \<Rightarrow> Thrown TypeError c
           | Some q \<Rightarrow>
               (let s1 = socket_write q s;
                    s2 = socket_write [buf] s1;
                    s3 = (if is_closed E c then s2\<lparr>ended := True\<rparr> else s2)
                in Done (c\<lparr>pending := Some [], socket := Some s3\<rparr>)))
      | None \<Rightarrow>
          (case pending c of
             None \<Rightarrow> Thrown TypeError c
           | Some q \<Rightarrow> Done (c\<lparr>pending := Some (q @ [buf])\<rparr>)))"

definition conn_write_frame ::
  "'s collab \<Rightarrow> nat \<Rightarrow> performative \<Rightarrow> 's connection \<Rightarrow> 's connection result" where
  \<comment> \<open>\<open>_write_frame\<close>\<close>
  "conn_write_frame E ch p c = output_conn E (write_amqp_frame E ch p) c"

definition conn_write_open :: "'s collab \<Rightarrow> 's connection \<Rightarrow> 's connection result" where
  "conn_write_open E c = conn_write_frame E 0 (local_open c) c"

definition conn_write_close :: "'s collab \<Rightarrow> 's connection \<Rightarrow> 's connection result" where
  "conn_write_close E c = conn_write_frame E 0 (local_close c) c"

definition init :: "'s collab \<Rightarrow> socket \<Rightarrow> 's connection \<Rightarrow> 's connection" where
  "init E s c =
     open_conn E
       (c\<lparr>socket := Some s,
          pending := Some [write_header E \<lparr>protocol_id = 0, major = 1, minor = 0, revision = 0\<rparr>]\<rparr>)"

section \<open>Channel multiplexer\<close>

text \<open>
  \<open>create_session\<close>: the loop \<open>while (this.local_channel_map[i]) i++\<close> from \<open>i = 0\<close>. A
  stored session is an object, hence truthy, so the loop goes on exactly while \<open>i\<close> is a
  key.
\<close>

function first_free :: "(nat \<times> nat) list \<Rightarrow> nat \<Rightarrow> nat" where
  "first_free m i = (if map_of m i \<noteq> None then first_free m (Suc i) else i)"
  by pat_completeness auto
termination
proof (relation "measure (\<lambda>(m, i). Suc (Max (insert 0 (fst ` set m))) - i)")
  show "wf (measure (\<lambda>(m, i). Suc (Max (insert 0 (fst ` set m))) - i))" by simp
next
  fix m :: "(nat \<times> nat) list" and i :: nat
  assume "map_of m i \<noteq> None"
  then have "i \<in> fst ` set m" by (auto simp: map_of_eq_None_iff)
  then have "i \<le> Max (insert 0 (fst ` set m))" by (intro Max_ge) auto
  then show "((m, Suc i), (m, i)) \<in> measure (\<lambda>(m, i). Suc (Max (insert 0 (fst ` set m))) - i)"
    by simp
qed

declare first_free.simps [simp del]

definition create_session :: "'s connection \<Rightarrow> nat \<times> 's connection" where
  \<comment> \<open>returns the new session (its index in the store) and the connection\<close>
  "create_session c =
     (let i = first_free (local_channel_map c) 0;
          sid = length (sessions c)
      in (sid, c\<lparr>sessions := sessions c @ [Session i],
                 local_channel_map := AList.update i sid (local_channel_map c)\<rparr>))"

text \<open>
  Modelled from the spec: a handler \<open>on_<name>(frame)\<close> of the session collaborator; the
  call is appended to the log of the session it is invoked on.
\<close>

definition session_on :: "pname \<Rightarrow> frame \<Rightarrow> nat \<Rightarrow> 's connection \<Rightarrow> 's connection" where
  "session_on n f sid c =
     c\<lparr>sessions := (sessions c)[sid := (sessions c ! sid)\<lparr>received := received (sessions c ! sid) @ [(n, f)]\<rparr>]\<rparr>"

definition on_begin :: "frame \<Rightarrow> 's connection \<Rightarrow> 's connection result" where
  "on_begin f c =
     (case remote_channel (performative f) of
        None \<Rightarrow>
          (let (sid, c1) = create_session c;
               c2 = c1\<lparr>sessions := (sessions c1)[sid := (sessions c1 ! sid)\<lparr>begin_remote_channel := Some (channel f)\<rparr>]\<rparr>;
               c3 = session_on Begin f sid c2
           in Done (c3\<lparr>remote_channel_map := (remote_channel_map c3)(channel f \<mapsto> sid)\<rparr>))
      | Some r \<Rightarrow>
          (case map_of (local_channel_map c) r of
             None \<Rightarrow> Thrown (Invalid_remote_channel r) c
           | Some sid \<Rightarrow>
               (let c3 = session_on Begin f sid c
                in Done (c3\<lparr>remote_channel_map := (remote_channel_map c3)(channel f \<mapsto> sid)\<rparr>))))"

definition delegate_to_session :: "pname \<Rightarrow> frame \<Rightarrow> 's connection \<Rightarrow> 's connection result" where
  \<comment> \<open>the handler \<open>on_<name>\<close> installed by \<open>delegate_to_session(name)\<close>\<close>
  "delegate_to_session n f c =
     (case remote_channel_map c (channel f) of
        None \<Rightarrow> Thrown (Invalid_channel n (channel f)) c
      | Some sid \<Rightarrow> Done (session_on n f sid c))"

section \<open>Lifecycle\<close>

definition on_open :: "'s collab \<Rightarrow> frame \<Rightarrow> 's connection \<Rightarrow> 's connection result" where
  "on_open E f c =
     (let (b, s) = st_remote_opened E (state c); c1 = c\<lparr>state := s\<rparr>
      in if b then
           (let c2 = c1\<lparr>remote_open := Some (performative f)\<rparr>
            in Done (open_conn E (dispatch ''connection_open'' (conn_context c2) c2)))
         else Thrown Open_already_received c1)"

definition on_close :: "'s collab \<Rightarrow> frame \<Rightarrow> 's connection \<Rightarrow> 's connection result" where
  "on_close E f c =
     (let (b, s) = st_remote_closed E (state c); c1 = c\<lparr>state := s\<rparr>
      in if b then
           (let c2 = c1\<lparr>remote_close := Some (performative f)\<rparr>
            in Done (close_conn E (dispatch ''connection_close'' (conn_context c2) c2)))
         else Thrown Close_already_received c1)"

text \<open>
  Modelled from the spec: \<open>_process\<close> of the session collaborator flushes the session's
  pending output: each pending performative is written with \<open>_write_frame\<close> on the
  session's channel, in order, and the pending list is emptied.
\<close>

fun write_frames ::
  "'s collab \<Rightarrow> nat \<Rightarrow> performative list \<Rightarrow> 's connection \<Rightarrow> 's connection result" where
  "write_frames E ch [] c = Done c"
| "write_frames E ch (p # ps) c =
     (case conn_write_frame E ch p c of
        Done c1 \<Rightarrow> write_frames E ch ps c1
      | Thrown e c1 \<Rightarrow> Thrown e c1)"

definition session_process :: "'s collab \<Rightarrow> nat \<Rightarrow> 's connection \<Rightarrow> 's connection result" where
  "session_process E sid c =
     (case write_frames E (ssn_channel (sessions c ! sid)) (outgoing (sessions c ! sid)) c of
        Done c1 \<Rightarrow> Done (c1\<lparr>sessions := (sessions c1)[sid := (sessions c1 ! sid)\<lparr>outgoing := []\<rparr>]\<rparr>)
      | Thrown e c1 \<Rightarrow> Thrown e c1)"

text \<open>
  \<open>for (var k in this.local_channel_map) this.local_channel_map[k]._process()\<close>: the keys
  are integers, which JavaScript enumerates once each, in ascending order.
\<close>

definition keys :: "(nat \<times> nat) list \<Rightarrow> nat list" where
  "keys m = sort (remdups (map fst m))"

fun process_sessions :: "'s collab \<Rightarrow> nat list \<Rightarrow> 's connection \<Rightarrow> 's connection result" where
  "process_sessions E [] c = Done c"
| "process_sessions E (k # ks) c =
     (case map_of (local_channel_map c) k of
        None \<Rightarrow> process_sessions E ks c
      | Some sid \<Rightarrow>
          (case session_process E sid c of
             Done c1 \<Rightarrow> process_sessions E ks c1
           | Thrown e c1 \<Rightarrow> Thrown e c1))"

definition process_pass :: "'s collab \<Rightarrow> 's connection \<Rightarrow> 's connection result" where
  \<comment> \<open>the body of the \<open>do ... while\<close> loop of \<open>_process\<close>\<close>
  "process_pass E c =
     (let (b, s) = st_need_open E (state c); c1 = c\<lparr>state := s\<rparr>
      in case (if b then conn_write_open E c1 else Done c1) of
           Thrown e c2 \<Rightarrow> Thrown e c2
         | Done c2 \<Rightarrow>
             (case process_sessions E (keys (local_channel_map c2)) c2 of
                Thrown e c3 \<Rightarrow> Thrown e c3
              | Done c3 \<Rightarrow>
                  (let (b', s') = st_need_close E (state c3); c4 = c3\<lparr>state := s'\<rparr>
                   in if b' then conn_write_close E c4 else Done c4)))"

text \<open>
  The loop \<open>do { ... } while (!this.state.has_settled())\<close> need not end: \<open>None\<close> is the
  run that never returns.
\<close>

partial_function (option) process_loop ::
  "'s collab \<Rightarrow> 's connection \<Rightarrow> 's connection result option" where
  "process_loop E c =
     (case process_pass E c of
        Thrown e c1 \<Rightarrow> Some (Thrown e c1)
      | Done c1 \<Rightarrow> if st_has_settled E (state c1) then Some (Done c1) else process_loop E c1)"

definition conn_process :: "'s collab \<Rightarrow> 's connection \<Rightarrow> 's connection result option" where
  \<comment> \<open>\<open>_process\<close>\<close>
  "conn_process E c = process_loop E (c\<lparr>registered := False\<rparr>)"

text \<open>
  One turn of the event loop: the oldest queued \<open>_process\<close> callback of this connection,
  when there is one, is taken from the queue and run.
\<close>

definition run_tick :: "'s collab \<Rightarrow> 's connection \<Rightarrow> 's connection result option" where
  "run_tick E c =
     (if next_tick c = 0 then Some (Done c)
      else conn_process E (c\<lparr>next_tick := next_tick c - 1\<rparr>))"

section \<open>Frame reassembler\<close>

definition readUInt32BE :: "buffer \<Rightarrow> nat \<Rightarrow> nat option" where
  \<comment> \<open>\<open>None\<close>: the read goes beyond the buffer, which throws a RangeError\<close>
  "readUInt32BE b off =
     (if off + 4 \<le> length b then
        Some (((unat (b ! off) * 256 + unat (b ! (off + 1))) * 256 + unat (b ! (off + 2))) * 256
              + unat (b ! (off + 3)))
      else None)"

definition slice :: "buffer \<Rightarrow> nat \<Rightarrow> nat \<Rightarrow> buffer" where
  "slice b i j = take (j - i) (drop i b)"

text \<open>
  Modelled from the spec: \<open>frame.performative.dispatch(this, frame)\<close> is defined in
  \<open>frames.js\<close>; it calls the connection's handler \<open>on_<name>\<close> for the performative.
\<close>

definition dispatch_frame :: "'s collab \<Rightarrow> frame \<Rightarrow> 's connection \<Rightarrow> 's connection result" where
  "dispatch_frame E f c =
     (case descriptor (performative f) of
        Open \<Rightarrow> on_open E f c
      | Close \<Rightarrow> on_close E f c
      | Begin \<Rightarrow> on_begin f c
      | n \<Rightarrow> delegate_to_session n f c)"

text \<open>
  The \<open>while (offset < buffer.length)\<close> loop of \<open>input\<close>. A frame of declared size 0
  does not advance the offset, so the loop need not end.
\<close>

partial_function (option) frames_loop ::
  "'s collab \<Rightarrow> buffer \<Rightarrow> nat \<Rightarrow> 's connection \<Rightarrow> 's connection result option" where
  "frames_loop E b off c =
     (if off < length b then
        (case readUInt32BE b off of
           None \<Rightarrow> Some (Thrown RangeError c)
         | Some frame_size \<Rightarrow>
             if length b < off + frame_size then
               Some (Done (c\<lparr>previous_input := Some (drop off b)\<rparr>))
             else
               (case read_frame E (slice b off (off + frame_size)) of
                  Inl e \<Rightarrow> Some (Thrown e c)
                | Inr f \<Rightarrow>
                    (case dispatch_frame E f c of
                       Thrown e c1 \<Rightarrow> Some (Thrown e c1)
                     | Done c1 \<Rightarrow> frames_loop E b (off + frame_size) c1)))
      else Some (Done c))"

text \<open>
  \<open>input\<close>. When \<open>previous_input\<close> holds a buffer (any buffer is truthy), the code
  evaluates \<open>this.previous.size()\<close>; no code of the file assigns \<open>this.previous\<close>, so
  the property is \<open>undefined\<close> and the call throws a TypeError before anything else is
  done.
\<close>

definition input :: "'s collab \<Rightarrow> buffer \<Rightarrow> 's connection \<Rightarrow> 's connection result option" where
  "input E buff c =
     (case previous_input c of
        Some p \<Rightarrow> Some (Thrown TypeError c)
      | None \<Rightarrow>
          (case header_received c of
             None \<Rightarrow>
               if length buff < 8 then Some (Done (c\<lparr>previous_input := Some buff\<rparr>))
               else
                 (case read_header E buff of
                    Inl e \<Rightarrow> Some (Thrown e c)
                  | Inr h \<Rightarrow> frames_loop E buff 8 (c\<lparr>header_received := Some h\<rparr>))
           | Some h \<Rightarrow> frames_loop E buff 0 c))"

section \<open>Removal of a session\<close>

text \<open>
  Modelled from the spec: no code of \<open>connection.js\<close> removes a session; the spec speaks of
  destroying/removing the session at a channel, which is the deletion of that key from
  the local channel map. \<open>create_sessions n\<close> is \<open>n\<close> calls of \<open>create_session\<close> in
  sequence.
\<close>

definition remove_session :: "nat \<Rightarrow> 's connection \<Rightarrow> 's connection" where
  "remove_session k c = c\<lparr>local_channel_map := AList.delete k (local_channel_map c)\<rparr>"

definition create_sessions :: "nat \<Rightarrow> 's connection \<Rightarrow> 's connection" where
  "create_sessions n c = ((\<lambda>c. snd (create_session c)) ^^ n) c"

section \<open>An instance of the collaborators\<close>

text \<open>
  Modelled from the spec: \<open>endpoint.js\<close> and \<open>frames.js\<close> are not among the sources. The
  tracker below follows the spec's words. \<open>open\<close> and \<open>close\<close> record the local intent
  and answer whether this is a fresh transition. \<open>need_open\<close> and \<open>need_close\<close> answer
  whether the request is still unsent, and mark it sent. \<open>remote_opened\<close> and
  \<open>remote_closed\<close> mark the remote side and answer whether the transition is valid, that
  is, whether the side was not already marked. The connection is open while both sides
  have opened and neither has closed, and closed when both sides have closed.
  \<open>has_settled\<close> holds in the terminal state: both sides closed and nothing left unsent.
  The codec writes the 8-byte header as the protocol identifier followed by id, major,
  minor and revision, and a frame as a 4-byte big-endian length, doff, type, a 2-byte
  channel and two bytes of body (descriptor code and remote channel, \<open>0xFF\<close> when
  absent). The theorems below hold for every collaborator; the instance serves to apply
  them to concrete connections.
\<close>

record endpoint =
  local_opened :: bool
  local_closed :: bool
  open_unsent :: bool
  close_unsent :: bool
  remote_marked_open :: bool
  remote_marked_closed :: bool

definition pname_code :: "pname \<Rightarrow> 8 word" where
  "pname_code n = (case n of Open \<Rightarrow> 0x10 | Begin \<Rightarrow> 0x11 | Attach \<Rightarrow> 0x12 | Flow \<Rightarrow> 0x13
     | Transfer \<Rightarrow> 0x14 | Disposition \<Rightarrow> 0x15 | Detach \<Rightarrow> 0x16 | End \<Rightarrow> 0x17 | Close \<Rightarrow> 0x18)"

definition code_pname :: "8 word \<Rightarrow> pname option" where
  "code_pname w = (if w = 0x10 then Some Open else if w = 0x11 then Some Begin
     else if w = 0x12 then Some Attach else if w = 0x13 then Some Flow
     else if w = 0x14 then Some Transfer else if w = 0x15 then Some Disposition
     else if w = 0x16 then Some Detach else if w = 0x17 then Some End
     else if w = 0x18 then Some Close else None)"

definition tracker_codec :: "endpoint collab" where
  "tracker_codec =
     \<lparr>st_new = \<lparr>local_opened = False, local_closed = False, open_unsent = False,
                close_unsent = False, remote_marked_open = False, remote_marked_closed = False\<rparr>,
      st_open = (\<lambda>s. (\<not> local_opened s,
                     s\<lparr>local_opened := True, open_unsent := open_unsent s \<or> \<not> local_opened s\<rparr>)),
      st_close = (\<lambda>s. (\<not> local_closed s,
                     s\<lparr>local_closed := True, close_unsent := close_unsent s \<or> \<not> local_closed s\<rparr>)),
      st_is_open = (\<lambda>s. local_opened s \<and> remote_marked_open s
                     \<and> \<not> local_closed s \<and> \<not> remote_marked_closed s),
      st_is_closed = (\<lambda>s. local_closed s \<and> remote_marked_closed s),
      st_need_open = (\<lambda>s. (open_unsent s, s\<lparr>open_unsent := False\<rparr>)),
      st_need_close = (\<lambda>s. (close_unsent s, s\<lparr>close_unsent := False\<rparr>)),
      st_has_settled = (\<lambda>s. local_closed s \<and> remote_marked_closed s
                     \<and> \<not> open_unsent s \<and> \<not> close_unsent s),
      st_remote_opened = (\<lambda>s. (\<not> remote_marked_open s, s\<lparr>remote_marked_open := True\<rparr>)),
      st_remote_closed = (\<lambda>s. (\<not> remote_marked_closed s, s\<lparr>remote_marked_closed := True\<rparr>)),
      read_header = (\<lambda>b. if length b < 8 then Inl Codec_error
                     else Inr \<lparr>protocol_id = unat (b ! 4), major = unat (b ! 5),
                               minor = unat (b ! 6), revision = unat (b ! 7)\<rparr>),
      read_frame = (\<lambda>b. if length b < 10 then Inl Codec_error
                     else (case code_pname (b ! 8) of
                             None \<Rightarrow> Inl Codec_error
                           | Some n \<Rightarrow>
                               Inr \<lparr>channel = unat (b ! 6) * 256 + unat (b ! 7),
                                    performative =
                                      \<lparr>descriptor = n,
                                       remote_channel = (if b ! 9 = 0xFF then None else Some (unat (b ! 9))),
                                       container_id = None\<rparr>\<rparr>)),
      write_header = (\<lambda>h. [0x41, 0x4D, 0x51, 0x50, of_nat (protocol_id h), of_nat (major h),
                           of_nat (minor h), of_nat (revision h)]),
      write_amqp_frame = (\<lambda>ch p. [0, 0, 0, 10, 2, 0, of_nat (ch div 256), of_nat ch,
                           pname_code (descriptor p),
                           (case remote_channel p of None \<Rightarrow> 0xFF | Some r \<Rightarrow> of_nat r)])\<rparr>"

definition fresh :: "endpoint connection" where
  "fresh = Connection tracker_codec ''connection-1'' ''uuid-1'' None (\<lambda>n. [])"

section \<open>What reaches the transport\<close>

text \<open>
  \<open>wire\<close> is the sequence of buffers in the order in which they reach the transport:
  what the socket has been given, followed by what is still queued in \<open>pending\<close>.
  \<open>session_frames\<close> is the output the sessions of the given channels have pending,
  encoded, in the order of the channels. \<open>same_control\<close> relates two connections that
  differ at most in the transport, the queue and the contents of the session store;
  \<open>kept\<close> allows the tracker's state to differ as well.
\<close>

definition wire :: "'s connection \<Rightarrow> buffer list" where
  "wire c = (case socket c of Some s \<Rightarrow> written s | None \<Rightarrow> [])
            @ (case pending c of Some q \<Rightarrow> q | None \<Rightarrow> [])"

fun session_frames :: "'s collab \<Rightarrow> 's connection \<Rightarrow> nat list \<Rightarrow> buffer list" where
  "session_frames E c [] = []"
| "session_frames E c (k # ks) =
     (case map_of (local_channel_map c) k of
        None \<Rightarrow> []
      | Some sid \<Rightarrow>
          map (write_amqp_frame E (ssn_channel (sessions c ! sid))) (outgoing (sessions c ! sid)))
     @ session_frames E c ks"

definition same_control :: "'s connection \<Rightarrow> 's connection \<Rightarrow> bool" where
  "same_control c c' \<longleftrightarrow>
     registered c' = registered c \<and> next_tick c' = next_tick c
     \<and> remote_channel_map c' = remote_channel_map c
     \<and> local_channel_map c' = local_channel_map c
     \<and> local_open c' = local_open c \<and> local_close c' = local_close c
     \<and> state c' = state c \<and> length (sessions c') = length (sessions c)
     \<and> (pending c' = None \<longleftrightarrow> pending c = None)
     \<and> (socket c' = None \<longleftrightarrow> socket c = None)"

definition kept :: "'s connection \<Rightarrow> 's connection \<Rightarrow> bool" where
  "kept c c' \<longleftrightarrow>
     registered c' = registered c \<and> next_tick c' = next_tick c
     \<and> remote_channel_map c' = remote_channel_map c
     \<and> local_channel_map c' = local_channel_map c
     \<and> length (sessions c') = length (sessions c)
     \<and> (pending c' = None \<longleftrightarrow> pending c = None)
     \<and> (socket c' = None \<longleftrightarrow> socket c = None)"

section \<open>Frames handled in sequence\<close>

text \<open>
  \<open>deliver\<close> hands a sequence of decoded frames to their handlers, one after the
  other; a handler that throws leaves the connection as it was at the throw. \<open>begun\<close>
  collects the channels of the begin frames whose handler returned. \<open>delegated\<close> are the
  performatives whose handler is installed by \<open>delegate_to_session\<close>.
\<close>

fun deliver :: "'s collab \<Rightarrow> frame list \<Rightarrow> 's connection \<Rightarrow> 's connection" where
  "deliver E [] c = c"
| "deliver E (f # fs) c = deliver E fs (result_state (dispatch_frame E f c))"

fun begun :: "'s collab \<Rightarrow> frame list \<Rightarrow> 's connection \<Rightarrow> nat set" where
  "begun E [] c = {}"
| "begun E (f # fs) c =
     (if descriptor (performative f) = Begin \<and> \<not> is_thrown (dispatch_frame E f c)
      then {channel f} else {})
     \<union> begun E fs (result_state (dispatch_frame E f c))"

definition delegated :: "pname set" where
  "delegated = {End, Attach, Detach, Transfer, Disposition, Flow}"

section \<open>Calls and reachable connections\<close>

text \<open>
  The calls a connection receives from the application, the transport, the sessions
  (\<open>_register\<close>) and the event loop (the queued \<open>_process\<close> callback). A connection is
  reachable when it results from the constructor by a sequence of such calls; a call that
  throws leaves the connection as it was at the throw. \<open>sched_inv\<close> and \<open>store_inv\<close>
  are the two invariants of the reachable connections proved below.
\<close>

datatype call =
    Call_open
  | Call_close
  | Call_register
  | Call_init socket
  | Call_output buffer
  | Call_input buffer
  | Call_create_session
  | Call_frame frame
  | Call_tick

fun exec :: "'s collab \<Rightarrow> call \<Rightarrow> 's connection \<Rightarrow> 's connection result option" where
  "exec E Call_open c = Some (Done (open_conn E c))"
| "exec E Call_close c = Some (Done (close_conn E c))"
| "exec E Call_register c = Some (Done (conn_register c))"
| "exec E (Call_init s) c = Some (Done (init E s c))"
| "exec E (Call_output b) c = Some (output_conn E b c)"
| "exec E (Call_input b) c = input E b c"
| "exec E Call_create_session c = Some (Done (snd (create_session c)))"
| "exec E (Call_frame f) c = Some (dispatch_frame E f c)"
| "exec E Call_tick c = run_tick E c"

inductive reachable :: "'s collab \<Rightarrow> 's connection \<Rightarrow> bool" for E :: "'s collab" where
  constructed: "reachable E (Connection E cid uuid cont ls)"
| called: "reachable E c \<Longrightarrow> exec E a c = Some r \<Longrightarrow> reachable E (result_state r)"


definition store_inv :: "'s connection \<Rightarrow> bool" where
  "store_inv c \<longleftrightarrow>
     distinct (map snd (local_channel_map c))
     \<and> (\<forall>p \<in> set (local_channel_map c). snd p < length (sessions c))
     \<and> (socket c \<noteq> None \<longrightarrow> pending c \<noteq> None)"

section \<open>Concrete frames and connections\<close>

text \<open>
  Frames and connections over the instance above, at which the theorems are applied:
  a connection after a peer-initiated begin on channel 0, a connection with a listener for
  the two connection events, before and after a remote open or close, and a connection
  with a socket attached, before (\<open>attached\<close>) and after (\<open>started\<close>) the \<open>open()\<close>
  that ends \<open>init\<close>, after the peer's open frame (\<open>answered\<close>) and after the peer's
  close frame (\<open>closing\<close>); and the byte stream of the protocol header followed by an
  open frame.
\<close>

definition begin_frame :: "nat \<Rightarrow> nat option \<Rightarrow> frame" where
  "begin_frame ch r =
     \<lparr>channel = ch, performative = \<lparr>descriptor = Begin, remote_channel = r, container_id = None\<rparr>\<rparr>"

definition plain_frame :: "pname \<Rightarrow> nat \<Rightarrow> frame" where
  "plain_frame n ch =
     \<lparr>channel = ch, performative = \<lparr>descriptor = n, remote_channel = None, container_id = None\<rparr>\<rparr>"

definition open_frame :: frame where
  "open_frame = plain_frame Open 0"

definition close_frame :: frame where
  "close_frame = plain_frame Close 0"

definition one_begun :: "endpoint connection" where
  "one_begun = deliver tracker_codec [begin_frame 0 None] fresh"

definition listening :: "endpoint connection" where
  "listening = Connection tracker_codec ''connection-2'' ''uuid-2'' None
     (\<lambda>n. if n = ''connection_open'' \<or> n = ''connection_close'' then [0] else [])"

definition opened_once :: "endpoint connection" where
  "opened_once = result_state (on_open tracker_codec open_frame listening)"

definition closed_once :: "endpoint connection" where
  "closed_once = result_state (on_close tracker_codec close_frame listening)"

definition sock0 :: socket where
  "sock0 = \<lparr>written = [], ended = False\<rparr>"

definition attached :: "endpoint connection" where
  "attached = fresh\<lparr>socket := Some sock0,
     pending := Some [write_header tracker_codec \<lparr>protocol_id = 0, major = 1, minor = 0, revision = 0\<rparr>]\<rparr>"

definition started :: "endpoint connection" where
  "started = init tracker_codec sock0 fresh"

definition answered :: "endpoint connection" where
  "answered = result_state (dispatch_frame tracker_codec open_frame started)"

definition closing :: "endpoint connection" where
  "closing = result_state (dispatch_frame tracker_codec close_frame answered)"

definition header_and_open :: buffer where
  "header_and_open = [0x41, 0x4D, 0x51, 0x50, 0, 1, 0, 0] @ [0, 0, 0, 10, 2, 0, 0, 0, 0x10, 0xFF]"

section \<open>Dispatch bridge\<close>

text \<open>
  C10. Silent drop: when no listener is registered for the event name and the connection
  has no container, \<open>dispatch\<close> returns (it has no throwing outcome) and the connection
  is the same as before: no listener invocation is logged, nothing is forwarded, nothing
  is queued.
\<close>

theorem dispatch_silent_drop:
  "listeners c name = [] \<Longrightarrow> container c = None \<Longrightarrow> dispatch name ctx c = c"
  by (simp add: dispatch_def)

text \<open>A connection fresh from the constructor has no listener and no container.\<close>

theorem dispatch_silent_drop_witness:
  "listeners fresh ''connection_open'' = [] \<and> container fresh = None
   \<and> dispatch ''connection_open'' (conn_context fresh) fresh = fresh"
  using dispatch_silent_drop [of fresh "''connection_open''" "conn_context fresh"]
  by (simp add: fresh_def Connection_def)

section \<open>Channel allocation\<close>

lemma first_free_ge: "i \<le> first_free m i"
  by (induction m i rule: first_free.induct) (subst first_free.simps, auto dest: Suc_leD)

lemma first_free_free: "map_of m (first_free m i) = None"
  by (induction m i rule: first_free.induct) (subst first_free.simps, auto)

lemma first_free_below: "i \<le> j \<Longrightarrow> j < first_free m i \<Longrightarrow> map_of m j \<noteq> None"
proof (induction m i rule: first_free.induct)
  case (1 m i)
  show ?case
  proof (cases "map_of m i = None")
    case True
    then have "first_free m i = i" by (subst first_free.simps) simp
    with "1.prems" show ?thesis by simp
  next
    case False
    then have eq: "first_free m i = first_free m (Suc i)" by (subst first_free.simps) simp
    show ?thesis
    proof (cases "j = i")
      case True
      with False show ?thesis by simp
    next
      case False
      with "1.prems" have "Suc i \<le> j" by simp
      with "1.IH" \<open>map_of m i \<noteq> None\<close> "1.prems" eq show ?thesis by simp
    qed
  qed
qed

lemma first_free_Least: "first_free m 0 = (LEAST i. map_of m i = None)"
proof (rule Least_equality [symmetric])
  show "map_of m (first_free m 0) = None" by (rule first_free_free)
next
  fix y assume "map_of m y = None"
  then show "first_free m 0 \<le> y"
    using first_free_below [of 0 y m] by (cases "y < first_free m 0") auto
qed


lemma create_session_dom:
  "dom (map_of (local_channel_map (snd (create_session c)))) =
     insert (first_free (local_channel_map c) 0) (dom (map_of (local_channel_map c)))"
  by (simp add: create_session_def Let_def update_conv' )

lemma first_free_upto:
  assumes "dom (map_of m) = {0..<n}"
  shows "first_free m 0 = n"
proof -
  have "map_of m n = None" using assms by (metis atLeastLessThan_iff domIff less_irrefl)
  moreover have "\<And>j. map_of m j = None \<Longrightarrow> n \<le> j"
    using assms by (metis atLeastLessThan_iff domIff not_le zero_le)
  ultimately show ?thesis unfolding first_free_Least by (intro Least_equality) auto
qed

lemma create_sessions_dom:
  "local_channel_map c = [] \<Longrightarrow>
   dom (map_of (local_channel_map (create_sessions n c))) = {0..<n}"
proof (induction n)
  case 0
  then show ?case by (simp add: create_sessions_def)
next
  case (Suc n)
  then have d: "dom (map_of (local_channel_map (create_sessions n c))) = {0..<n}" by simp
  have "create_sessions (Suc n) c = snd (create_session (create_sessions n c))"
    by (simp add: create_sessions_def)
  then show ?case
    using create_session_dom [of "create_sessions n c"] first_free_upto [OF d] d
    by (simp add: atLeast0_lessThan_Suc)
qed

lemma first_free_hole:
  assumes "dom (map_of m) = {0..<n} - {k}" and "k < n"
  shows "first_free m 0 = k"
proof -
  have "map_of m k = None" using assms by (metis Diff_iff domIff insertI1)
  moreover have "\<And>j. map_of m j = None \<Longrightarrow> k \<le> j"
  proof -
    fix j assume "map_of m j = None"
    then have "j \<notin> {0..<n} - {k}" using assms(1) by (metis domIff)
    then show "k \<le> j" using assms(2) by auto
  qed
  ultimately show ?thesis unfolding first_free_Least by (intro Least_equality) auto
qed

lemma create_session_channel:
  "ssn_channel (sessions (snd (create_session c)) ! fst (create_session c)) =
     first_free (local_channel_map c) 0"
  by (simp add: create_session_def Let_def Session_def)

text \<open>
  C6. Lowest-free channel allocation: \<open>create_session\<close> is a total function without
  throwing outcome; the new session is bound to the least number that is not a key of
  the local channel map, is appended to the store, and is registered in the map under
  that number. After \<open>n\<close> sessions created on an empty map and the removal of channel
  \<open>k < n\<close>, the next session gets channel \<open>k\<close>.
\<close>

theorem create_session_lowest_free:
  "(case create_session c of (sid, c') \<Rightarrow>
      sid = length (sessions c)
      \<and> sessions c' = sessions c @ [Session (LEAST i. map_of (local_channel_map c) i = None)]
      \<and> ssn_channel (sessions c' ! sid) = (LEAST i. map_of (local_channel_map c) i = None)
      \<and> map_of (local_channel_map c') =
          (map_of (local_channel_map c))((LEAST i. map_of (local_channel_map c) i = None) \<mapsto> sid))
   \<and> (local_channel_map d = [] \<and> k < n \<longrightarrow>
        (case create_session (remove_session k (create_sessions n d)) of (sid, d') \<Rightarrow>
           ssn_channel (sessions d' ! sid) = k \<and> map_of (local_channel_map d') k = Some sid))"
proof (intro conjI impI)
  show "case create_session c of (sid, c') \<Rightarrow>
      sid = length (sessions c)
      \<and> sessions c' = sessions c @ [Session (LEAST i. map_of (local_channel_map c) i = None)]
      \<and> ssn_channel (sessions c' ! sid) = (LEAST i. map_of (local_channel_map c) i = None)
      \<and> map_of (local_channel_map c') =
          (map_of (local_channel_map c))((LEAST i. map_of (local_channel_map c) i = None) \<mapsto> sid)"
    by (simp add: create_session_def Let_def first_free_Least Session_def update_conv')
next
  assume a: "local_channel_map d = [] \<and> k < n"
  let ?r = "remove_session k (create_sessions n d)"
  have "dom (map_of (local_channel_map ?r)) = {0..<n} - {k}"
    using create_sessions_dom [of d n] a by (simp add: remove_session_def delete_conv')
  then have ff: "first_free (local_channel_map ?r) 0 = k" using a by (intro first_free_hole [of _ n]) auto
  show "case create_session ?r of (sid, d') \<Rightarrow>
           ssn_channel (sessions d' ! sid) = k \<and> map_of (local_channel_map d') k = Some sid"
    using ff by (simp add: create_session_def Let_def Session_def update_conv')
qed

text \<open>Three sessions, channel 1 removed: the next session is on channel 1.\<close>

theorem create_session_lowest_free_witness:
  "local_channel_map fresh = [] \<and> (1::nat) < 3
   \<and> (case create_session (remove_session 1 (create_sessions 3 fresh)) of (sid, d') \<Rightarrow>
        ssn_channel (sessions d' ! sid) = 1 \<and> map_of (local_channel_map d') 1 = Some sid)"
  using create_session_lowest_free [of fresh fresh 1 3]
  by (simp add: fresh_def Connection_def)

section \<open>Field lemmas\<close>

lemma conn_register_fields:
  "options_id (conn_register c) = options_id c"
  "container (conn_register c) = container c"
  "state (conn_register c) = state c"
  "local_channel_map (conn_register c) = local_channel_map c"
  "local_open (conn_register c) = local_open c"
  "local_close (conn_register c) = local_close c"
  "remote_open (conn_register c) = remote_open c"
  "remote_close (conn_register c) = remote_close c"
  "socket (conn_register c) = socket c"
  "pending (conn_register c) = pending c"
  "previous_input (conn_register c) = previous_input c"
  "header_received (conn_register c) = header_received c"
  "sessions (conn_register c) = sessions c"
  "listeners (conn_register c) = listeners c"
  "emitted (conn_register c) = emitted c"
  "registered (conn_register c) = True"
  "next_tick (conn_register c) = (if registered c then next_tick c else Suc (next_tick c))"
  by (simp_all add: conn_register_def)

lemma open_conn_fields:
  "options_id (open_conn E c) = options_id c"
  "container (open_conn E c) = container c"
  "state (open_conn E c) = snd (st_open E (state c))"
  "local_channel_map (open_conn E c) = local_channel_map c"
  "local_open (open_conn E c) = local_open c"
  "local_close (open_conn E c) = local_close c"
  "remote_open (open_conn E c) = remote_open c"
  "remote_close (open_conn E c) = remote_close c"
  "socket (open_conn E c) = socket c"
  "pending (open_conn E c) = pending c"
  "previous_input (open_conn E c) = previous_input c"
  "header_received (open_conn E c) = header_received c"
  "sessions (open_conn E c) = sessions c"
  "listeners (open_conn E c) = listeners c"
  "emitted (open_conn E c) = emitted c"
  "registered (open_conn E c) = (registered c \<or> fst (st_open E (state c)))"
  "next_tick (open_conn E c) =
     (if fst (st_open E (state c)) \<and> \<not> registered c then Suc (next_tick c) else next_tick c)"
  by (simp_all add: open_conn_def Let_def conn_register_fields split: prod.splits)

lemma close_conn_fields:
  "options_id (close_conn E c) = options_id c"
  "container (close_conn E c) = container c"
  "state (close_conn E c) = snd (st_close E (state c))"
  "local_channel_map (close_conn E c) = local_channel_map c"
  "local_open (close_conn E c) = local_open c"
  "local_close (close_conn E c) = local_close c"
  "remote_open (close_conn E c) = remote_open c"
  "remote_close (close_conn E c) = remote_close c"
  "socket (close_conn E c) = socket c"
  "pending (close_conn E c) = pending c"
  "previous_input (close_conn E c) = previous_input c"
  "header_received (close_conn E c) = header_received c"
  "sessions (close_conn E c) = sessions c"
  "listeners (close_conn E c) = listeners c"
  "emitted (close_conn E c) = emitted c"
  "registered (close_conn E c) = (registered c \<or> fst (st_close E (state c)))"
  "next_tick (close_conn E c) =
     (if fst (st_close E (state c)) \<and> \<not> registered c then Suc (next_tick c) else next_tick c)"
  by (simp_all add: close_conn_def Let_def conn_register_fields split: prod.splits)

lemma dispatch_fields:
  "options_id (dispatch n x c) = options_id c"
  "state (dispatch n x c) = state c"
  "local_channel_map (dispatch n x c) = local_channel_map c"
  "local_open (dispatch n x c) = local_open c"
  "local_close (dispatch n x c) = local_close c"
  "remote_open (dispatch n x c) = remote_open c"
  "remote_close (dispatch n x c) = remote_close c"
  "socket (dispatch n x c) = socket c"
  "pending (dispatch n x c) = pending c"
  "previous_input (dispatch n x c) = previous_input c"
  "header_received (dispatch n x c) = header_received c"
  "sessions (dispatch n x c) = sessions c"
  "listeners (dispatch n x c) = listeners c"
  "registered (dispatch n x c) = registered c"
  "next_tick (dispatch n x c) = next_tick c"
  "listeners c n \<noteq> [] \<Longrightarrow> emitted (dispatch n x c) = emitted c @ map (\<lambda>l. (l, n, x)) (listeners c n)"
  "listeners c n \<noteq> [] \<Longrightarrow> container (dispatch n x c) = container c"
  "listeners c n = [] \<Longrightarrow> emitted (dispatch n x c) = emitted c"
  "listeners c n = [] \<Longrightarrow> container (dispatch n x c) =
     map_option (\<lambda>k. k\<lparr>cont_dispatched := cont_dispatched k @ [(n, x)]\<rparr>) (container c)"
  by (simp_all add: dispatch_def split: option.splits)

lemma session_on_fields [simp]:
  "remote_channel_map (session_on n f sid c) = remote_channel_map c"
  "local_channel_map (session_on n f sid c) = local_channel_map c"
  "registered (session_on n f sid c) = registered c"
  "next_tick (session_on n f sid c) = next_tick c"
  "state (session_on n f sid c) = state c"
  by (simp_all add: session_on_def)

lemma delegate_rcm [simp]:
  "remote_channel_map (result_state (delegate_to_session n f c)) = remote_channel_map c"
  by (simp add: delegate_to_session_def split: option.splits)

lemma conn_register_rcm [simp]: "remote_channel_map (conn_register c) = remote_channel_map c"
  by (simp add: conn_register_def)

lemma open_conn_rcm [simp]: "remote_channel_map (open_conn E c) = remote_channel_map c"
  by (simp add: open_conn_def Let_def split: prod.splits)

lemma close_conn_rcm [simp]: "remote_channel_map (close_conn E c) = remote_channel_map c"
  by (simp add: close_conn_def Let_def split: prod.splits)

lemma dispatch_rcm [simp]: "remote_channel_map (dispatch n x c) = remote_channel_map c"
  by (simp add: dispatch_def split: option.splits)

lemma on_open_rcm [simp]: "remote_channel_map (result_state (on_open E f c)) = remote_channel_map c"
  by (simp add: on_open_def Let_def split: prod.splits)

lemma on_close_rcm [simp]: "remote_channel_map (result_state (on_close E f c)) = remote_channel_map c"
  by (simp add: on_close_def Let_def split: prod.splits)

lemma on_begin_dom:
  "dom (remote_channel_map (result_state (on_begin f c))) =
     dom (remote_channel_map c) \<union> (if is_thrown (on_begin f c) then {} else {channel f})"
  by (auto simp: on_begin_def Let_def create_session_def split: option.splits prod.splits if_splits)

lemma dispatch_frame_dom:
  "dom (remote_channel_map (result_state (dispatch_frame E f c))) =
     dom (remote_channel_map c) \<union>
       (if descriptor (performative f) = Begin \<and> \<not> is_thrown (dispatch_frame E f c)
        then {channel f} else {})"
  by (cases "descriptor (performative f)") (simp_all add: dispatch_frame_def on_begin_dom)

lemma deliver_dom:
  "dom (remote_channel_map (deliver E fs c)) = dom (remote_channel_map c) \<union> begun E fs c"
proof (induction fs arbitrary: c)
  case Nil
  show ?case by simp
next
  case (Cons f fs)
  show ?case
    unfolding deliver.simps begun.simps Cons.IH dispatch_frame_dom by (simp add: Un_assoc)
qed

section \<open>The instance and the concrete connections\<close>

lemma tracker_codec_simps:
  "st_new tracker_codec = \<lparr>local_opened = False, local_closed = False, open_unsent = False,
      close_unsent = False, remote_marked_open = False, remote_marked_closed = False\<rparr>"
  "st_open tracker_codec s = (\<not> local_opened s,
      s\<lparr>local_opened := True, open_unsent := open_unsent s \<or> \<not> local_opened s\<rparr>)"
  "st_close tracker_codec s = (\<not> local_closed s,
      s\<lparr>local_closed := True, close_unsent := close_unsent s \<or> \<not> local_closed s\<rparr>)"
  "st_is_open tracker_codec s = (local_opened s \<and> remote_marked_open s
      \<and> \<not> local_closed s \<and> \<not> remote_marked_closed s)"
  "st_is_closed tracker_codec s = (local_closed s \<and> remote_marked_closed s)"
  "st_need_open tracker_codec s = (open_unsent s, s\<lparr>open_unsent := False\<rparr>)"
  "st_need_close tracker_codec s = (close_unsent s, s\<lparr>close_unsent := False\<rparr>)"
  "st_has_settled tracker_codec s = (local_closed s \<and> remote_marked_closed s
      \<and> \<not> open_unsent s \<and> \<not> close_unsent s)"
  "st_remote_opened tracker_codec s = (\<not> remote_marked_open s, s\<lparr>remote_marked_open := True\<rparr>)"
  "st_remote_closed tracker_codec s = (\<not> remote_marked_closed s, s\<lparr>remote_marked_closed := True\<rparr>)"
  "write_header tracker_codec h = [0x41, 0x4D, 0x51, 0x50, of_nat (protocol_id h), of_nat (major h),
      of_nat (minor h), of_nat (revision h)]"
  "write_amqp_frame tracker_codec ch p = [0, 0, 0, 10, 2, 0, of_nat (ch div 256), of_nat ch,
      pname_code (descriptor p), (case remote_channel p of None \<Rightarrow> 0xFF | Some r \<Rightarrow> of_nat r)]"
  by (simp_all add: tracker_codec_def)

lemma fresh_fields:
  "options_id fresh = ''connection-1''" "container fresh = None" "registered fresh = False"
  "state fresh = st_new tracker_codec" "local_channel_map fresh = []"
  "remote_channel_map fresh = Map.empty" "socket fresh = None" "pending fresh = None"
  "previous_input fresh = None" "header_received fresh = None" "sessions fresh = []"
  "emitted fresh = []" "next_tick fresh = 0" "listeners fresh n = []"
  by (simp_all add: fresh_def Connection_def)

lemma listening_fields:
  "options_id listening = ''connection-2''" "container listening = None"
  "registered listening = False" "state listening = st_new tracker_codec"
  "emitted listening = []" "next_tick listening = 0"
  "listeners listening ''connection_open'' = [0]" "listeners listening ''connection_close'' = [0]"
  by (simp_all add: listening_def Connection_def)

lemma first_free_Nil [simp]: "first_free [] i = i"
  by (subst first_free.simps) simp

lemma one_begun_fields:
  "remote_channel_map one_begun = [0 \<mapsto> 0]"
  "local_channel_map one_begun = [(0, 0)]"
  "sessions one_begun = [\<lparr>ssn_channel = 0, begin_remote_channel = Some 0,
      received = [(Begin, begin_frame 0 None)], outgoing = []\<rparr>]"
  by (simp_all add: one_begun_def fresh_def Connection_def dispatch_frame_def begin_frame_def
      on_begin_def create_session_def Let_def session_on_def Session_def)

lemma started_attached: "started = open_conn tracker_codec attached"
  by (simp add: started_def init_def attached_def)

lemma attached_fields:
  "pending attached = Some [[0x41, 0x4D, 0x51, 0x50, 0, 1, 0, 0]]"
  "socket attached = Some sock0"
  "local_channel_map attached = []" "registered attached = False" "next_tick attached = 0"
  "state attached = st_new tracker_codec" "remote_channel_map attached = Map.empty"
  "local_open attached = \<lparr>descriptor = Open, remote_channel = None, container_id = Some ''uuid-1''\<rparr>"
  "local_close attached = \<lparr>descriptor = Close, remote_channel = None, container_id = None\<rparr>"
  by (simp_all add: attached_def fresh_def Connection_def tracker_codec_simps)

lemma closing_fields:
  "socket closing = Some sock0"
  "pending closing = Some [[0x41, 0x4D, 0x51, 0x50, 0, 1, 0, 0]]"
  "local_channel_map closing = []"
  "remote_channel_map closing = Map.empty"
  "registered closing = True" "next_tick closing = 1"
  "state closing = \<lparr>local_opened = True, local_closed = True, open_unsent = True,
      close_unsent = True, remote_marked_open = True, remote_marked_closed = True\<rparr>"
  "local_open closing = \<lparr>descriptor = Open, remote_channel = None, container_id = Some ''uuid-1''\<rparr>"
  "local_close closing = \<lparr>descriptor = Close, remote_channel = None, container_id = None\<rparr>"
  by (simp_all add: closing_def answered_def started_attached dispatch_frame_def open_frame_def
      close_frame_def plain_frame_def on_open_def on_close_def Let_def open_conn_fields
      close_conn_fields dispatch_fields attached_fields tracker_codec_simps conn_context_def)

lemma tracker_codec_read:
  "read_header tracker_codec b = (if length b < 8 then Inl Codec_error
                     else Inr \<lparr>protocol_id = unat (b ! 4), major = unat (b ! 5),
                               minor = unat (b ! 6), revision = unat (b ! 7)\<rparr>)"
  "read_frame tracker_codec b = (if length b < 10 then Inl Codec_error
                     else (case code_pname (b ! 8) of
                             None \<Rightarrow> Inl Codec_error
                           | Some n \<Rightarrow>
                               Inr \<lparr>channel = unat (b ! 6) * 256 + unat (b ! 7),
                                    performative =
                                      \<lparr>descriptor = n,
                                       remote_channel = (if b ! 9 = 0xFF then None else Some (unat (b ! 9))),
                                       container_id = None\<rparr>\<rparr>))"
  by (simp_all add: tracker_codec_def)

section \<open>Begin handling and routing\<close>

text \<open>
  C3. Begin symmetry. A begin frame without remote-channel value creates a session with
  \<open>create_session\<close> (the next index of the store, on the least free local channel), sets
  the \<open>remote_channel\<close> of its local begin declaration to the frame's channel, invokes the
  session's \<open>on_begin\<close> and binds the frame's channel to it in the remote channel map. A
  begin frame whose remote-channel value is a key of the local channel map invokes
  \<open>on_begin\<close> of the mapped session and binds the frame's channel to it. A remote-channel
  value that is not a key throws, and the connection is unchanged.
\<close>

theorem on_begin_symmetry:
  "(remote_channel (performative f) = None \<longrightarrow>
      on_begin f c =
        Done (c\<lparr>sessions := sessions c @
                  [\<lparr>ssn_channel = (LEAST i. map_of (local_channel_map c) i = None),
                    begin_remote_channel = Some (channel f),
                    received = [(Begin, f)], outgoing = []\<rparr>],
                local_channel_map :=
                  AList.update (LEAST i. map_of (local_channel_map c) i = None) (length (sessions c))
                    (local_channel_map c),
                remote_channel_map := (remote_channel_map c)(channel f \<mapsto> length (sessions c))\<rparr>)
      \<and> fst (create_session c) = length (sessions c)
      \<and> sessions (snd (create_session c)) ! length (sessions c) =
          Session (LEAST i. map_of (local_channel_map c) i = None))
   \<and> (remote_channel (performative f) = Some r \<and> map_of (local_channel_map c) r = Some sid \<longrightarrow>
      on_begin f c =
        Done (c\<lparr>sessions := (sessions c)[sid := (sessions c ! sid)
                  \<lparr>received := received (sessions c ! sid) @ [(Begin, f)]\<rparr>],
                remote_channel_map := (remote_channel_map c)(channel f \<mapsto> sid)\<rparr>))
   \<and> (remote_channel (performative f) = Some r \<and> map_of (local_channel_map c) r = None \<longrightarrow>
      on_begin f c = Thrown (Invalid_remote_channel r) c)"
  by (simp add: on_begin_def create_session_def Let_def session_on_def Session_def first_free_Least)

text \<open>
  The three cases: a peer-initiated begin on channel 3 of a fresh connection, and a
  begin on channel 7 that refers to local channel 0 (present) or 4 (absent) of a connection
  with one session.
\<close>

theorem on_begin_symmetry_witness:
  "remote_channel (performative (begin_frame 3 None)) = None
   \<and> on_begin (begin_frame 3 None) fresh =
       Done (fresh\<lparr>sessions := [\<lparr>ssn_channel = 0, begin_remote_channel = Some 3,
                       received = [(Begin, begin_frame 3 None)], outgoing = []\<rparr>],
                    local_channel_map := [(0, 0)],
                    remote_channel_map := [3 \<mapsto> 0]\<rparr>)
   \<and> remote_channel (performative (begin_frame 7 (Some 0))) = Some 0
   \<and> map_of (local_channel_map one_begun) 0 = Some 0
   \<and> remote_channel_map (result_state (on_begin (begin_frame 7 (Some 0)) one_begun)) 7 = Some 0
   \<and> remote_channel (performative (begin_frame 7 (Some 4))) = Some 4
   \<and> map_of (local_channel_map one_begun) 4 = None
   \<and> on_begin (begin_frame 7 (Some 4)) one_begun = Thrown (Invalid_remote_channel 4) one_begun"
proof -
  have l: "(LEAST i. map_of (local_channel_map fresh) i = None) = 0"
    by (simp add: fresh_def Connection_def)
  have s: "sessions fresh = []" "local_channel_map fresh = []" "remote_channel_map fresh = Map.empty"
    by (simp_all add: fresh_def Connection_def)
  show ?thesis
    using on_begin_symmetry [of "begin_frame 3 None" fresh 0 0]
      on_begin_symmetry [of "begin_frame 7 (Some 0)" one_begun 0 0]
      on_begin_symmetry [of "begin_frame 7 (Some 4)" one_begun 4 0]
    by (simp add: begin_frame_def one_begun_fields l s)
qed

text \<open>
  C4. Routing correctness. The handler installed by \<open>delegate_to_session\<close> throws exactly
  when the remote channel map has no entry for the frame's channel; otherwise it invokes
  the handler of that name on the session bound to the channel, and every other session
  of the store is unchanged. The six performatives end, attach, detach, transfer,
  disposition and flow are dispatched to this handler. On a connection whose remote channel
  map started empty, the channels with an entry are those of the begin frames handled
  without a throw.
\<close>

theorem delegate_routing:
  "(is_thrown (delegate_to_session n f c) \<longleftrightarrow> remote_channel_map c (channel f) = None)
   \<and> (remote_channel_map c (channel f) = None \<longrightarrow>
        delegate_to_session n f c = Thrown (Invalid_channel n (channel f)) c)
   \<and> (remote_channel_map c (channel f) = Some sid \<longrightarrow>
        delegate_to_session n f c =
          Done (c\<lparr>sessions := (sessions c)[sid := (sessions c ! sid)
                    \<lparr>received := received (sessions c ! sid) @ [(n, f)]\<rparr>]\<rparr>)
        \<and> (\<forall>j. j \<noteq> sid \<longrightarrow>
              sessions (result_state (delegate_to_session n f c)) ! j = sessions c ! j))
   \<and> (n \<in> delegated \<and> descriptor (performative f) = n \<longrightarrow>
        dispatch_frame E f c = delegate_to_session n f c)
   \<and> (remote_channel_map d = Map.empty \<longrightarrow>
        (is_thrown (delegate_to_session n f (deliver E fs d)) \<longleftrightarrow> channel f \<notin> begun E fs d))"
proof (intro conjI impI)
  show "is_thrown (delegate_to_session n f c) \<longleftrightarrow> remote_channel_map c (channel f) = None"
    by (simp add: delegate_to_session_def split: option.splits)
  show "delegate_to_session n f c = Thrown (Invalid_channel n (channel f)) c"
    if "remote_channel_map c (channel f) = None"
    using that by (simp add: delegate_to_session_def)
  show "delegate_to_session n f c =
          Done (c\<lparr>sessions := (sessions c)[sid := (sessions c ! sid)
                    \<lparr>received := received (sessions c ! sid) @ [(n, f)]\<rparr>]\<rparr>)"
    if "remote_channel_map c (channel f) = Some sid"
    using that by (simp add: delegate_to_session_def session_on_def)
  show "\<forall>j. j \<noteq> sid \<longrightarrow> sessions (result_state (delegate_to_session n f c)) ! j = sessions c ! j"
    if "remote_channel_map c (channel f) = Some sid"
    using that by (simp add: delegate_to_session_def session_on_def)
  show "dispatch_frame E f c = delegate_to_session n f c"
    if "n \<in> delegated \<and> descriptor (performative f) = n"
    using that by (auto simp: delegated_def dispatch_frame_def)
  show "is_thrown (delegate_to_session n f (deliver E fs d)) \<longleftrightarrow> channel f \<notin> begun E fs d"
    if "remote_channel_map d = Map.empty"
  proof -
    have "dom (remote_channel_map (deliver E fs d)) = begun E fs d"
      using that by (simp add: deliver_dom)
    then have "remote_channel_map (deliver E fs d) (channel f) = None \<longleftrightarrow> channel f \<notin> begun E fs d"
      by (auto simp: domIff)
    then show ?thesis by (auto simp: delegate_to_session_def split: option.splits)
  qed
qed

text \<open>
  An end frame on channel 0 after a begin on channel 0 is routed to session 0; the same
  frame on channel 5 throws.
\<close>

theorem delegate_routing_witness:
  "remote_channel_map one_begun (channel (plain_frame End 0)) = Some 0
   \<and> delegate_to_session End (plain_frame End 0) one_begun =
       Done (one_begun\<lparr>sessions := (sessions one_begun)[0 := (sessions one_begun ! 0)
                    \<lparr>received := received (sessions one_begun ! 0) @ [(End, plain_frame End 0)]\<rparr>]\<rparr>)
   \<and> End \<in> delegated \<and> descriptor (performative (plain_frame End 0)) = End
   \<and> dispatch_frame tracker_codec (plain_frame End 0) one_begun =
       delegate_to_session End (plain_frame End 0) one_begun
   \<and> remote_channel_map one_begun (channel (plain_frame End 5)) = None
   \<and> delegate_to_session End (plain_frame End 5) one_begun = Thrown (Invalid_channel End 5) one_begun
   \<and> remote_channel_map fresh = Map.empty
   \<and> channel (plain_frame End 0) \<in> begun tracker_codec [begin_frame 0 None] fresh
   \<and> \<not> is_thrown (delegate_to_session End (plain_frame End 0)
          (deliver tracker_codec [begin_frame 0 None] fresh))"
proof -
  have a: "remote_channel_map one_begun (channel (plain_frame End 0)) = Some 0"
    by (simp add: one_begun_fields plain_frame_def)
  have b: "remote_channel_map one_begun (channel (plain_frame End 5)) = None"
    by (simp add: one_begun_fields plain_frame_def)
  have c: "End \<in> delegated \<and> descriptor (performative (plain_frame End 0)) = End"
    by (simp add: delegated_def plain_frame_def)
  have d: "remote_channel_map fresh = Map.empty"
    by (simp add: fresh_def Connection_def)
  have e: "channel (plain_frame End 0) \<in> begun tracker_codec [begin_frame 0 None] fresh"
    by (simp add: fresh_def Connection_def dispatch_frame_def begin_frame_def plain_frame_def
      on_begin_def create_session_def Let_def)
  show ?thesis
    using delegate_routing [of End "plain_frame End 0" one_begun 0 tracker_codec fresh "[begin_frame 0 None]"]
      delegate_routing [of End "plain_frame End 5" one_begun 0 tracker_codec fresh "[]"]
      a b c d e
    by (simp add: plain_frame_def)
qed

section \<open>Remote open and close\<close>

text \<open>
  C5. \<open>on_open\<close> throws exactly when the tracker's \<open>remote_opened\<close> answers that the
  transition is not valid. On a valid transition the performative is recorded in
  \<open>remote.open\<close>, the event \<open>connection_open\<close> is dispatched with a context that refers to
  the connection, and \<open>open\<close> is called (the tracker's \<open>open\<close> has run). \<open>on_close\<close>
  is symmetric.
\<close>

theorem remote_open_close_once:
  "(is_thrown (on_open E f c) \<longleftrightarrow> \<not> fst (st_remote_opened E (state c)))
   \<and> (\<not> fst (st_remote_opened E (state c)) \<longrightarrow>
        on_open E f c = Thrown Open_already_received (c\<lparr>state := snd (st_remote_opened E (state c))\<rparr>))
   \<and> (fst (st_remote_opened E (state c)) \<longrightarrow>
        on_open E f c =
          Done (open_conn E (dispatch ''connection_open''
                  \<lparr>ctx_connection = options_id c, ctx_container = map_option cont_id (container c)\<rparr>
                  (c\<lparr>state := snd (st_remote_opened E (state c)),
                     remote_open := Some (performative f)\<rparr>)))
        \<and> remote_open (result_state (on_open E f c)) = Some (performative f)
        \<and> state (result_state (on_open E f c)) =
            snd (st_open E (snd (st_remote_opened E (state c))))
        \<and> (listeners c ''connection_open'' \<noteq> [] \<longrightarrow>
             emitted (result_state (on_open E f c)) =
               emitted c @ map (\<lambda>l. (l, ''connection_open'',
                  \<lparr>ctx_connection = options_id c, ctx_container = map_option cont_id (container c)\<rparr>))
                  (listeners c ''connection_open'')))
   \<and> (is_thrown (on_close E f c) \<longleftrightarrow> \<not> fst (st_remote_closed E (state c)))
   \<and> (\<not> fst (st_remote_closed E (state c)) \<longrightarrow>
        on_close E f c = Thrown Close_already_received (c\<lparr>state := snd (st_remote_closed E (state c))\<rparr>))
   \<and> (fst (st_remote_closed E (state c)) \<longrightarrow>
        on_close E f c =
          Done (close_conn E (dispatch ''connection_close''
                  \<lparr>ctx_connection = options_id c, ctx_container = map_option cont_id (container c)\<rparr>
                  (c\<lparr>state := snd (st_remote_closed E (state c)),
                     remote_close := Some (performative f)\<rparr>)))
        \<and> remote_close (result_state (on_close E f c)) = Some (performative f)
        \<and> state (result_state (on_close E f c)) =
            snd (st_close E (snd (st_remote_closed E (state c))))
        \<and> (listeners c ''connection_close'' \<noteq> [] \<longrightarrow>
             emitted (result_state (on_close E f c)) =
               emitted c @ map (\<lambda>l. (l, ''connection_close'',
                  \<lparr>ctx_connection = options_id c, ctx_container = map_option cont_id (container c)\<rparr>))
                  (listeners c ''connection_close'')))"
  by (simp add: on_open_def on_close_def Let_def conn_context_def open_conn_fields
      close_conn_fields dispatch_fields split: prod.splits)

text \<open>
  On a connection with a listener: the first remote open (close) is recorded and the
  listener is invoked once; the second throws.
\<close>

theorem remote_open_close_once_witness:
  "fst (st_remote_opened tracker_codec (state listening))
   \<and> remote_open opened_once = Some (performative open_frame)
   \<and> listeners listening ''connection_open'' \<noteq> []
   \<and> emitted opened_once =
       [(0, ''connection_open'', \<lparr>ctx_connection = ''connection-2'', ctx_container = None\<rparr>)]
   \<and> \<not> fst (st_remote_opened tracker_codec (state opened_once))
   \<and> is_thrown (on_open tracker_codec open_frame opened_once)
   \<and> fst (st_remote_closed tracker_codec (state listening))
   \<and> remote_close closed_once = Some (performative close_frame)
   \<and> listeners listening ''connection_close'' \<noteq> []
   \<and> emitted closed_once =
       [(0, ''connection_close'', \<lparr>ctx_connection = ''connection-2'', ctx_container = None\<rparr>)]
   \<and> \<not> fst (st_remote_closed tracker_codec (state closed_once))
   \<and> is_thrown (on_close tracker_codec close_frame closed_once)"
proof -
  have a: "fst (st_remote_opened tracker_codec (state listening))"
    "fst (st_remote_closed tracker_codec (state listening))"
    by (simp_all add: listening_fields tracker_codec_simps)
  have b: "\<not> fst (st_remote_opened tracker_codec (state opened_once))"
    using remote_open_close_once [of tracker_codec open_frame listening] a
    by (simp add: opened_once_def listening_fields tracker_codec_simps open_conn_fields dispatch_fields)
  have c: "\<not> fst (st_remote_closed tracker_codec (state closed_once))"
    using remote_open_close_once [of tracker_codec close_frame listening] a
    by (simp add: closed_once_def listening_fields tracker_codec_simps close_conn_fields dispatch_fields)
  have d: "remote_open opened_once = Some (performative open_frame)
     \<and> emitted opened_once =
       [(0, ''connection_open'', \<lparr>ctx_connection = ''connection-2'', ctx_container = None\<rparr>)]"
    using remote_open_close_once [of tracker_codec open_frame listening] a
    by (simp add: opened_once_def listening_fields open_conn_fields dispatch_fields)
  have e: "remote_close closed_once = Some (performative close_frame)
     \<and> emitted closed_once =
       [(0, ''connection_close'', \<lparr>ctx_connection = ''connection-2'', ctx_container = None\<rparr>)]"
    using remote_open_close_once [of tracker_codec close_frame listening] a
    by (simp add: closed_once_def listening_fields close_conn_fields dispatch_fields)
  have f: "is_thrown (on_open tracker_codec open_frame opened_once)"
    using remote_open_close_once [of tracker_codec open_frame opened_once] b by simp
  have g: "is_thrown (on_close tracker_codec close_frame closed_once)"
    using remote_open_close_once [of tracker_codec close_frame closed_once] c by simp
  show ?thesis using a b c d e f g by (simp add: listening_fields)
qed

section \<open>Output\<close>

text \<open>
  With a socket attached and the queue in place, \<open>output\<close> writes the pending buffers
  in their order, then the new buffer, leaves the queue empty, and ends the socket
  exactly when the connection is closed.
\<close>

lemma output_attached:
  "socket c = Some s \<Longrightarrow> pending c = Some q \<Longrightarrow>
   output_conn E buf c =
     Done (c\<lparr>pending := Some [],
            socket := Some (s\<lparr>written := written s @ q @ [buf],
                             ended := (ended s \<or> is_closed E c)\<rparr>)\<rparr>)"
  by (simp add: output_conn_def socket_write_def Let_def)

text \<open>
  C7. Without a socket the code runs \<open>this.pending.push(buffer)\<close>, but the constructor
  does not create \<open>pending\<close>; only \<open>init\<close> does, together with the socket. On a connection
  fresh from the constructor \<open>output\<close> therefore throws a TypeError and queues nothing.
  The second part shows the path to it: \<open>open()\<close> on a fresh connection, then the deferred
  pass, which writes the open frame.
\<close>

theorem output_before_init_throws:
  "output_conn E buf (Connection E cid uuid cont ls) = Thrown TypeError (Connection E cid uuid cont ls)
   \<and> socket (open_conn tracker_codec fresh) = None
   \<and> run_tick tracker_codec (open_conn tracker_codec fresh) =
       Some (Thrown TypeError
         ((open_conn tracker_codec fresh)\<lparr>next_tick := 0, registered := False,
            state := snd (st_need_open tracker_codec (state (open_conn tracker_codec fresh)))\<rparr>))"
proof (intro conjI)
  show "output_conn E buf (Connection E cid uuid cont ls) = Thrown TypeError (Connection E cid uuid cont ls)"
    by (simp add: output_conn_def Connection_def)
  show "socket (open_conn tracker_codec fresh) = None"
    by (simp add: open_conn_fields fresh_fields)
  show "run_tick tracker_codec (open_conn tracker_codec fresh) =
       Some (Thrown TypeError
         ((open_conn tracker_codec fresh)\<lparr>next_tick := 0, registered := False,
            state := snd (st_need_open tracker_codec (state (open_conn tracker_codec fresh)))\<rparr>))"
    apply (simp add: run_tick_def conn_process_def open_conn_fields fresh_fields tracker_codec_simps)
    apply (subst process_loop.simps)
    apply (simp add: process_pass_def open_conn_fields fresh_fields tracker_codec_simps
        conn_write_open_def conn_write_frame_def output_conn_def Let_def)
    done
qed

section \<open>Input\<close>

lemma input_leftover_throws:
  "previous_input c = Some p \<Longrightarrow> input E buff c = Some (Thrown TypeError c)"
  by (simp add: input_def)

lemma whole_stream:
  "input tracker_codec header_and_open fresh =
     Some (Done (fresh\<lparr>header_received := Some \<lparr>protocol_id = 0, major = 1, minor = 0, revision = 0\<rparr>,
        state := snd (st_open tracker_codec (snd (st_remote_opened tracker_codec (state fresh)))),
        remote_open := Some \<lparr>descriptor = Open, remote_channel = None, container_id = None\<rparr>,
        registered := True, next_tick := 1\<rparr>))"
  apply (simp add: input_def fresh_fields header_and_open_def tracker_codec_read)
  apply (subst frames_loop.simps)
  apply (simp add: readUInt32BE_def slice_def tracker_codec_read code_pname_def dispatch_frame_def
     on_open_def Let_def tracker_codec_simps fresh_fields dispatch_fields open_conn_def conn_register_def
     conn_context_def dispatch_def)
  apply (subst frames_loop.simps)
  apply (simp add: fresh_def Connection_def tracker_codec_simps)
  done

text \<open>
  C1. The protocol header split over two one-byte chunks: the first chunk is kept as
  leftover, and the second call of \<open>input\<close> throws a TypeError, so neither the header nor
  any frame is produced. On the instance: the stream of the header and an open frame,
  given as one chunk, yields the header and the open frame; the same stream split after
  its first byte throws at the second chunk.
\<close>

theorem input_split_stream_throws:
  "input E [0x41] (Connection E cid uuid cont ls) =
     Some (Done ((Connection E cid uuid cont ls)\<lparr>previous_input := Some [0x41]\<rparr>))
   \<and> input E [0x4D] ((Connection E cid uuid cont ls)\<lparr>previous_input := Some [0x41]\<rparr>) =
     Some (Thrown TypeError ((Connection E cid uuid cont ls)\<lparr>previous_input := Some [0x41]\<rparr>))
   \<and> input tracker_codec header_and_open fresh =
     Some (Done (fresh\<lparr>header_received := Some \<lparr>protocol_id = 0, major = 1, minor = 0, revision = 0\<rparr>,
        state := snd (st_open tracker_codec (snd (st_remote_opened tracker_codec (state fresh)))),
        remote_open := Some \<lparr>descriptor = Open, remote_channel = None, container_id = None\<rparr>,
        registered := True, next_tick := 1\<rparr>))
   \<and> input tracker_codec (take 1 header_and_open) fresh =
     Some (Done (fresh\<lparr>previous_input := Some (take 1 header_and_open)\<rparr>))
   \<and> input tracker_codec (drop 1 header_and_open)
       (fresh\<lparr>previous_input := Some (take 1 header_and_open)\<rparr>) =
     Some (Thrown TypeError (fresh\<lparr>previous_input := Some (take 1 header_and_open)\<rparr>))"
proof (intro conjI)
  show "input tracker_codec header_and_open fresh =
     Some (Done (fresh\<lparr>header_received := Some \<lparr>protocol_id = 0, major = 1, minor = 0, revision = 0\<rparr>,
        state := snd (st_open tracker_codec (snd (st_remote_opened tracker_codec (state fresh)))),
        remote_open := Some \<lparr>descriptor = Open, remote_channel = None, container_id = None\<rparr>,
        registered := True, next_tick := 1\<rparr>))"
    by (rule whole_stream)
  show "input tracker_codec (take 1 header_and_open) fresh =
     Some (Done (fresh\<lparr>previous_input := Some (take 1 header_and_open)\<rparr>))"
    by (simp add: input_def fresh_fields header_and_open_def)
qed (simp_all add: input_def Connection_def)

section \<open>What a pass writes\<close>

lemma same_control_refl [simp]: "same_control c c"
  by (simp add: same_control_def)

lemma same_control_trans: "same_control a b \<Longrightarrow> same_control b c \<Longrightarrow> same_control a c"
  by (simp add: same_control_def)

lemma output_conn_control: "same_control c (result_state (output_conn E buf c))"
  by (simp add: output_conn_def same_control_def Let_def split: option.splits)

lemma output_conn_sessions: "sessions (result_state (output_conn E buf c)) = sessions c"
  by (simp add: output_conn_def Let_def split: option.splits)

lemma output_conn_wire:
  "pending c \<noteq> None \<Longrightarrow>
   \<exists>c'. output_conn E buf c = Done c' \<and> wire c' = wire c @ [buf]"
  by (auto simp: output_conn_def wire_def socket_write_def Let_def split: option.splits)

lemma write_frames_control: "same_control c (result_state (write_frames E ch ps c))"
proof (induction ps arbitrary: c)
  case Nil
  show ?case by simp
next
  case (Cons p ps)
  have a: "same_control c (result_state (conn_write_frame E ch p c))"
    by (simp add: conn_write_frame_def output_conn_control)
  show ?case
  proof (cases "conn_write_frame E ch p c")
    case (Done c1)
    with a Cons.IH [of c1] show ?thesis by (auto intro: same_control_trans)
  next
    case (Thrown e c1)
    with a show ?thesis by simp
  qed
qed

lemma write_frames_sessions: "sessions (result_state (write_frames E ch ps c)) = sessions c"
proof (induction ps arbitrary: c)
  case Nil
  show ?case by simp
next
  case (Cons p ps)
  have a: "sessions (result_state (conn_write_frame E ch p c)) = sessions c"
    by (simp add: conn_write_frame_def output_conn_sessions)
  show ?case
  proof (cases "conn_write_frame E ch p c")
    case (Done c1)
    with a Cons.IH [of c1] show ?thesis by simp
  next
    case (Thrown e c1)
    with a show ?thesis by simp
  qed
qed

lemma write_frames_wire:
  "pending c \<noteq> None \<Longrightarrow>
   \<exists>c'. write_frames E ch ps c = Done c' \<and> wire c' = wire c @ map (write_amqp_frame E ch) ps"
proof (induction ps arbitrary: c)
  case Nil
  show ?case by simp
next
  case (Cons p ps)
  obtain c1 where a: "conn_write_frame E ch p c = Done c1"
      "wire c1 = wire c @ [write_amqp_frame E ch p]"
    using output_conn_wire [OF Cons.prems, of E "write_amqp_frame E ch p"]
    by (auto simp: conn_write_frame_def)
  have "same_control c (result_state (conn_write_frame E ch p c))"
    by (simp add: conn_write_frame_def output_conn_control)
  with Cons.prems a have "pending c1 \<noteq> None" by (simp add: same_control_def)
  from Cons.IH [OF this] a show ?case by auto
qed

lemma session_process_control: "same_control c (result_state (session_process E sid c))"
proof -
  let ?r = "write_frames E (ssn_channel (sessions c ! sid)) (outgoing (sessions c ! sid)) c"
  have "same_control c (result_state ?r)" by (rule write_frames_control)
  then show ?thesis
    by (cases ?r) (simp_all add: session_process_def same_control_def)
qed

lemma session_process_wire:
  assumes "pending c \<noteq> None"
  shows "\<exists>c'. session_process E sid c = Done c'
   \<and> wire c' =
       wire c @ map (write_amqp_frame E (ssn_channel (sessions c ! sid))) (outgoing (sessions c ! sid))
   \<and> sessions c' = (sessions c)[sid := (sessions c ! sid)\<lparr>outgoing := []\<rparr>]"
proof -
  let ?ch = "ssn_channel (sessions c ! sid)" and ?ps = "outgoing (sessions c ! sid)"
  obtain c1 where a: "write_frames E ?ch ?ps c = Done c1"
      "wire c1 = wire c @ map (write_amqp_frame E ?ch) ?ps"
    using write_frames_wire [OF assms, of E ?ch ?ps] by auto
  have "sessions c1 = sessions c" using write_frames_sessions [of E ?ch ?ps c] a by simp
  with a show ?thesis by (simp add: session_process_def wire_def)
qed

lemma process_sessions_control: "same_control c (result_state (process_sessions E ks c))"
proof (induction ks arbitrary: c)
  case Nil
  show ?case by simp
next
  case (Cons k ks)
  show ?case
  proof (cases "map_of (local_channel_map c) k")
    case None
    with Cons.IH [of c] show ?thesis by simp
  next
    case (Some sid)
    have a: "same_control c (result_state (session_process E sid c))"
      by (rule session_process_control)
    show ?thesis
    proof (cases "session_process E sid c")
      case (Done c1)
      with a Cons.IH [of c1] Some show ?thesis by (auto intro: same_control_trans)
    next
      case (Thrown e c1)
      with a Some show ?thesis by simp
    qed
  qed
qed

lemma session_frames_cong:
  assumes "local_channel_map c1 = local_channel_map c"
    and "\<And>k sid. k \<in> set ks \<Longrightarrow> map_of (local_channel_map c) k = Some sid \<Longrightarrow>
      sessions c1 ! sid = sessions c ! sid"
  shows "session_frames E c1 ks = session_frames E c ks"
  using assms(2)
proof (induction ks)
  case Nil
  show ?case by simp
next
  case (Cons k ks)
  have "session_frames E c1 ks = session_frames E c ks"
    using Cons.prems by (intro Cons.IH) auto
  moreover have "sessions c1 ! sid = sessions c ! sid"
    if "map_of (local_channel_map c) k = Some sid" for sid
    using that Cons.prems [of k sid] by simp
  ultimately show ?case by (simp add: assms(1) split: option.splits)
qed

lemma wire_state [simp]: "wire (c\<lparr>state := s\<rparr>) = wire c"
  by (simp add: wire_def)

lemma optional_write_wire:
  assumes "pending c \<noteq> None"
  shows "\<exists>c'. (if b then conn_write_frame E ch p c else Done c) = Done c'
     \<and> wire c' = wire c @ (if b then [write_amqp_frame E ch p] else [])
     \<and> same_control c c'"
proof (cases b)
  case True
  obtain c' where "output_conn E (write_amqp_frame E ch p) c = Done c'"
      "wire c' = wire c @ [write_amqp_frame E ch p]"
    using output_conn_wire [OF assms] by blast
  moreover have "same_control c (result_state (output_conn E (write_amqp_frame E ch p) c))"
    by (rule output_conn_control)
  ultimately show ?thesis using True by (simp add: conn_write_frame_def)
next
  case False
  then show ?thesis by simp
qed

lemma process_sessions_wire:
  assumes "pending c \<noteq> None" and "distinct ks"
    and "inj_on (map_of (local_channel_map c)) (set ks \<inter> dom (map_of (local_channel_map c)))"
  shows "\<exists>c'. process_sessions E ks c = Done c' \<and> wire c' = wire c @ session_frames E c ks"
  using assms
proof (induction ks arbitrary: c)
  case Nil
  show ?case by simp
next
  case (Cons k ks)
  let ?m = "local_channel_map c"
  have inj': "inj_on (map_of ?m) (set ks \<inter> dom (map_of ?m))"
    using Cons.prems(3) by (rule inj_on_subset) auto
  show ?case
  proof (cases "map_of ?m k")
    case None
    with Cons.IH [OF Cons.prems(1) _ inj'] Cons.prems(2) show ?thesis by simp
  next
    case (Some sid)
    obtain c1 where c1: "session_process E sid c = Done c1"
        "wire c1 = wire c @ map (write_amqp_frame E (ssn_channel (sessions c ! sid))) (outgoing (sessions c ! sid))"
        "sessions c1 = (sessions c)[sid := (sessions c ! sid)\<lparr>outgoing := []\<rparr>]"
      using session_process_wire [OF Cons.prems(1), of E sid] by auto
    have sc: "same_control c c1" using session_process_control [of c E sid] c1 by simp
    then have m1: "local_channel_map c1 = ?m" and p1: "pending c1 \<noteq> None"
      using Cons.prems(1) by (simp_all add: same_control_def)
    have other: "sessions c1 ! sid' = sessions c ! sid'"
      if "k' \<in> set ks" and "map_of ?m k' = Some sid'" for k' sid'
    proof -
      have "k' \<noteq> k" using that(1) Cons.prems(2) by auto
      moreover have "k \<in> set (k # ks) \<inter> dom (map_of ?m)" "k' \<in> set (k # ks) \<inter> dom (map_of ?m)"
        using Some that by auto
      ultimately have "map_of ?m k' \<noteq> map_of ?m k"
        using inj_onD [OF Cons.prems(3), of k' k] by blast
      with Some that(2) have "sid' \<noteq> sid" by auto
      then show ?thesis by (simp add: c1(3))
    qed
    have fr: "session_frames E c1 ks = session_frames E c ks"
      by (rule session_frames_cong [OF m1]) (rule other)
    obtain c' where c': "process_sessions E ks c1 = Done c'" "wire c' = wire c1 @ session_frames E c1 ks"
      using Cons.IH [OF p1, unfolded m1, OF _ inj'] Cons.prems(2) by auto
    show ?thesis using Some c1 c' fr by simp
  qed
qed

lemma map_of_inj_on:
  assumes "distinct (map snd m)"
  shows "inj_on (map_of m) (A \<inter> dom (map_of m))"
proof (rule inj_onI)
  fix x y assume x: "x \<in> A \<inter> dom (map_of m)" and y: "y \<in> A \<inter> dom (map_of m)"
    and eq: "map_of m x = map_of m y"
  from x obtain v where v: "map_of m x = Some v" by auto
  with eq have "map_of m y = Some v" by simp
  with v have "(x, v) \<in> set m" "(y, v) \<in> set m" by (auto dest: map_of_SomeD)
  moreover have "inj_on snd (set m)" using assms by (simp add: distinct_map)
  ultimately have "(x, v) = (y, v)" using inj_onD [of snd "set m" "(x, v)" "(y, v)"] by simp
  then show "x = y" by simp
qed

lemma keys_distinct: "distinct (keys m)"
  by (simp add: keys_def)

lemma process_pass_wire:
  assumes "pending c \<noteq> None" and "distinct (map snd (local_channel_map c))"
  shows "\<exists>c'. process_pass E c = Done c'
    \<and> wire c' = wire c
        @ (if fst (st_need_open E (state c)) then [write_amqp_frame E 0 (local_open c)] else [])
        @ session_frames E c (keys (local_channel_map c))
        @ (if fst (st_need_close E (snd (st_need_open E (state c))))
           then [write_amqp_frame E 0 (local_close c)] else [])
    \<and> state c' = snd (st_need_close E (snd (st_need_open E (state c))))
    \<and> registered c' = registered c \<and> next_tick c' = next_tick c
    \<and> (socket c \<noteq> None \<and> fst (st_need_close E (snd (st_need_open E (state c)))) \<longrightarrow>
         pending c' = Some [] \<and> socket c' \<noteq> None)"
proof -
  obtain b s where bs: "st_need_open E (state c) = (b, s)" by (cases "st_need_open E (state c)")
  let ?c1 = "c\<lparr>state := s\<rparr>"
  have p1: "pending ?c1 \<noteq> None" using assms(1) by simp
  obtain c2 where c2: "(if b then conn_write_frame E 0 (local_open c) ?c1 else Done ?c1) = Done c2"
      "wire c2 = wire c @ (if b then [write_amqp_frame E 0 (local_open c)] else [])"
      "same_control ?c1 c2"
    using optional_write_wire [OF p1, of b E 0 "local_open c"] by auto
  have s2: "sessions c2 = sessions c"
    using c2(1) output_conn_sessions [of E "write_amqp_frame E 0 (local_open c)" ?c1]
    by (auto simp: conn_write_frame_def split: if_splits)
  have f2: "local_channel_map c2 = local_channel_map c" "pending c2 \<noteq> None" "state c2 = s"
      "registered c2 = registered c" "next_tick c2 = next_tick c" "local_close c2 = local_close c"
    using assms(1) c2(3) by (simp_all add: same_control_def)
  have inj: "inj_on (map_of (local_channel_map c2))
      (set (keys (local_channel_map c2)) \<inter> dom (map_of (local_channel_map c2)))"
    unfolding f2 using assms(2) by (rule map_of_inj_on)
  obtain c3 where c3: "process_sessions E (keys (local_channel_map c2)) c2 = Done c3"
      "wire c3 = wire c2 @ session_frames E c2 (keys (local_channel_map c2))"
    using process_sessions_wire [OF f2(2) keys_distinct inj] by auto
  have fr: "session_frames E c2 (keys (local_channel_map c2)) = session_frames E c (keys (local_channel_map c))"
    unfolding f2 by (rule session_frames_cong) (simp_all add: f2 s2)
  have sc3: "same_control c2 c3"
    using process_sessions_control [of c2 E "keys (local_channel_map c2)"] c3 by simp
  then have f3: "pending c3 \<noteq> None" "state c3 = s" "registered c3 = registered c"
      "next_tick c3 = next_tick c" "local_close c3 = local_close c"
    using f2 by (simp_all add: same_control_def)
  obtain b' s' where bs': "st_need_close E s = (b', s')" by (cases "st_need_close E s")
  let ?c4 = "c3\<lparr>state := s'\<rparr>"
  have p4: "pending ?c4 \<noteq> None" using f3 by simp
  obtain c5 where c5: "(if b' then conn_write_frame E 0 (local_close c) ?c4 else Done ?c4) = Done c5"
      "wire c5 = wire c3 @ (if b' then [write_amqp_frame E 0 (local_close c)] else [])"
      "same_control ?c4 c5"
    using optional_write_wire [OF p4, of b' E 0 "local_close c"] by auto
  have f5: "state c5 = s'" "registered c5 = registered c" "next_tick c5 = next_tick c"
    using f3 c5(3) by (simp_all add: same_control_def)
  have r2: "(if b then conn_write_open E ?c1 else Done ?c1) = Done c2"
    using c2(1) by (cases b) (simp_all add: conn_write_open_def)
  have r5: "(if b' then conn_write_close E ?c4 else Done ?c4) = Done c5"
    using c5(1) f3(5) by (cases b') (simp_all add: conn_write_close_def)
  have fl: "pending c5 = Some [] \<and> socket c5 \<noteq> None" if "socket c \<noteq> None" and "b'"
  proof -
    have "socket ?c4 \<noteq> None" using that(1) c2(3) sc3 by (simp add: same_control_def)
    then show ?thesis
      using c5(1) that(2) p4
      by (auto simp: conn_write_frame_def output_conn_def Let_def split: option.splits)
  qed
  have "process_pass E c = Done c5"
    by (simp only: process_pass_def bs Let_def prod.case r2 result.case c3(1) f3(2) bs' r5)
  then show ?thesis using c5(2) c3(2) c2(2) fr f5 bs bs' fl by simp
qed

lemma process_pass_sched:
  "registered (result_state (process_pass E c)) = registered c
   \<and> next_tick (result_state (process_pass E c)) = next_tick c
   \<and> remote_channel_map (result_state (process_pass E c)) = remote_channel_map c
   \<and> local_channel_map (result_state (process_pass E c)) = local_channel_map c
   \<and> length (sessions (result_state (process_pass E c))) = length (sessions c)
   \<and> (pending (result_state (process_pass E c)) = None \<longleftrightarrow> pending c = None)
   \<and> (socket (result_state (process_pass E c)) = None \<longleftrightarrow> socket c = None)"
proof -
  obtain b s where bs: "st_need_open E (state c) = (b, s)" by (cases "st_need_open E (state c)")
  let ?c1 = "c\<lparr>state := s\<rparr>"
  let ?r2 = "if b then conn_write_open E ?c1 else Done ?c1"
  have a: "same_control ?c1 (result_state ?r2)"
    by (simp add: conn_write_open_def conn_write_frame_def output_conn_control)
  show ?thesis
  proof (cases ?r2)
    case (Thrown e c2)
    then have "process_pass E c = Thrown e c2" by (simp add: process_pass_def bs)
    with a Thrown show ?thesis by (simp add: same_control_def)
  next
    case (Done c2)
    let ?r3 = "process_sessions E (keys (local_channel_map c2)) c2"
    have b3: "same_control c2 (result_state ?r3)" by (rule process_sessions_control)
    show ?thesis
    proof (cases ?r3)
      case (Thrown e c3)
      then have "process_pass E c = Thrown e c3" using Done by (simp add: process_pass_def bs)
      with a b3 Done Thrown show ?thesis by (simp add: same_control_def)
    next
      case c3: (Done c3)
      obtain b' s' where bs': "st_need_close E (state c3) = (b', s')"
        by (cases "st_need_close E (state c3)")
      let ?c4 = "c3\<lparr>state := s'\<rparr>"
      let ?r5 = "if b' then conn_write_close E ?c4 else Done ?c4"
      have c5: "same_control ?c4 (result_state ?r5)"
        by (simp add: conn_write_close_def conn_write_frame_def output_conn_control)
      have "process_pass E c = ?r5" using Done c3 bs' by (simp add: process_pass_def bs)
      with a b3 c5 Done c3 show ?thesis by (simp add: same_control_def)
    qed
  qed
qed

lemma process_pass_kept: "kept c (result_state (process_pass E c))"
  using process_pass_sched [of E c] by (simp add: kept_def)

lemma process_loop_kept:
  assumes "process_loop E c = Some r"
  shows "kept c (result_state r)"
proof (rule process_loop.raw_induct [OF _ assms, where P = "\<lambda>E c r. kept c (result_state r)"])
  fix loop :: "'a collab \<Rightarrow> 'a connection \<Rightarrow> 'a connection result option" and E c r
  assume IH: "\<And>E c r. loop E c = Some r \<Longrightarrow> kept c (result_state r)"
    and body: "(case process_pass E c of
        Done c1 \<Rightarrow> if st_has_settled E (state c1) then Some (Done c1) else loop E c1
      | Thrown e c1 \<Rightarrow> Some (Thrown e c1)) = Some r"
  show "kept c (result_state r)"
  proof (cases "process_pass E c")
    case (Thrown e c1)
    with body process_pass_kept [of c E] show ?thesis by auto
  next
    case (Done c1)
    show ?thesis
    proof (cases "st_has_settled E (state c1)")
      case True
      with Done body process_pass_kept [of c E] show ?thesis by auto
    next
      case False
      with Done body have "loop E c1 = Some r" by simp
      from IH [OF this] process_pass_kept [of c E] Done show ?thesis by (simp add: kept_def)
    qed
  qed
qed

lemma process_loop_sched:
  assumes "process_loop E c = Some r"
  shows "registered (result_state r) = registered c \<and> next_tick (result_state r) = next_tick c
   \<and> remote_channel_map (result_state r) = remote_channel_map c"
  using process_loop_kept [OF assms] by (simp add: kept_def)

lemma closing_tick:
  "\<exists>c'. run_tick tracker_codec closing = Some (Done c')
     \<and> map_option written (socket c') =
         Some [[0x41, 0x4D, 0x51, 0x50, 0, 1, 0, 0],
               [0, 0, 0, 10, 2, 0, 0, 0, 0x10, 0xFF],
               [0, 0, 0, 10, 2, 0, 0, 0, 0x18, 0xFF]]"
proof -
  let ?e = "closing\<lparr>next_tick := 0, registered := False\<rparr>"
  have pe: "pending ?e \<noteq> None" "distinct (map snd (local_channel_map ?e))"
    by (simp_all add: closing_fields)
  obtain c' where c': "process_pass tracker_codec ?e = Done c'"
      "wire c' = wire ?e
          @ (if fst (st_need_open tracker_codec (state ?e))
             then [write_amqp_frame tracker_codec 0 (local_open ?e)] else [])
          @ session_frames tracker_codec ?e (keys (local_channel_map ?e))
          @ (if fst (st_need_close tracker_codec (snd (st_need_open tracker_codec (state ?e))))
             then [write_amqp_frame tracker_codec 0 (local_close ?e)] else [])"
      "state c' = snd (st_need_close tracker_codec (snd (st_need_open tracker_codec (state ?e))))"
      "socket ?e \<noteq> None \<and> fst (st_need_close tracker_codec (snd (st_need_open tracker_codec (state ?e))))
         \<longrightarrow> pending c' = Some [] \<and> socket c' \<noteq> None"
    using process_pass_wire [OF pe, of tracker_codec] by blast
  have w: "wire c' = [[0x41, 0x4D, 0x51, 0x50, 0, 1, 0, 0],
               [0, 0, 0, 10, 2, 0, 0, 0, 0x10, 0xFF],
               [0, 0, 0, 10, 2, 0, 0, 0, 0x18, 0xFF]]"
    unfolding c'(2)
    by (simp add: wire_def closing_fields sock0_def keys_def tracker_codec_simps pname_code_def)
  have st: "st_has_settled tracker_codec (state c')"
    unfolding c'(3) by (simp add: closing_fields tracker_codec_simps)
  have fl: "pending c' = Some []" "socket c' \<noteq> None"
    using c'(4) by (simp_all add: closing_fields tracker_codec_simps)
  have "process_loop tracker_codec ?e = Some (Done c')"
    using st by (subst process_loop.simps) (simp add: c'(1))
  then have "run_tick tracker_codec closing = Some (Done c')"
    by (simp add: run_tick_def conn_process_def closing_fields)
  moreover have "map_option written (socket c') = Some (wire c')"
    using fl by (auto simp: wire_def)
  ultimately show ?thesis using w by auto
qed

lemma keys_ascending:
  "keys m = sorted_list_of_set (dom (map_of m))"
  by (simp add: keys_def dom_map_of_conv_image_fst sorted_list_of_set_sort_remdups [symmetric])

section \<open>The remote channel map\<close>

text \<open>
  A second begin frame on channel 0, without remote-channel value, is handled without a
  throw and replaces the session bound to channel 0 (session 0) by a new one (session 1).
\<close>

theorem second_begin_rebinds:
  "on_begin (begin_frame 0 None) one_begun = Done (result_state (on_begin (begin_frame 0 None) one_begun))
   \<and> remote_channel_map one_begun 0 = Some 0
   \<and> remote_channel_map (result_state (on_begin (begin_frame 0 None) one_begun)) 0 = Some 1"
  by (simp add: on_begin_def begin_frame_def create_session_def Let_def one_begun_fields)

text \<open>
  C9, amended. The entry of the remote channel map for a channel is assigned by every
  \<open>on_begin\<close> that returns for a frame on that channel, to the session resolved for the
  frame (a new one when the frame has no remote-channel value), whether or not the channel
  had an entry. An \<open>on_begin\<close> that throws, the delegated handlers, \<open>on_open\<close>,
  \<open>on_close\<close>, \<open>open\<close>, \<open>close\<close>, \<open>create_session\<close>, \<open>output\<close> and the processing pass
  leave the map as it is.
\<close>

theorem remote_binding_by_begin:
  "(remote_channel (performative f) = None \<longrightarrow>
      \<not> is_thrown (on_begin f c)
      \<and> remote_channel_map (result_state (on_begin f c)) =
          (remote_channel_map c)(channel f \<mapsto> length (sessions c)))
   \<and> (remote_channel (performative f) = Some r \<and> map_of (local_channel_map c) r = Some sid \<longrightarrow>
      \<not> is_thrown (on_begin f c)
      \<and> remote_channel_map (result_state (on_begin f c)) = (remote_channel_map c)(channel f \<mapsto> sid))
   \<and> (remote_channel (performative f) = Some r \<and> map_of (local_channel_map c) r = None \<longrightarrow>
      is_thrown (on_begin f c)
      \<and> remote_channel_map (result_state (on_begin f c)) = remote_channel_map c)
   \<and> remote_channel_map (result_state (delegate_to_session n f c)) = remote_channel_map c
   \<and> remote_channel_map (result_state (on_open E f c)) = remote_channel_map c
   \<and> remote_channel_map (result_state (on_close E f c)) = remote_channel_map c
   \<and> remote_channel_map (open_conn E c) = remote_channel_map c
   \<and> remote_channel_map (close_conn E c) = remote_channel_map c
   \<and> remote_channel_map (snd (create_session c)) = remote_channel_map c
   \<and> remote_channel_map (result_state (output_conn E buf c)) = remote_channel_map c
   \<and> remote_channel_map (result_state (process_pass E c)) = remote_channel_map c
   \<and> (\<forall>res. run_tick E c = Some res \<longrightarrow>
        remote_channel_map (result_state res) = remote_channel_map c)"
proof -
  have o: "remote_channel_map (result_state (output_conn E buf c)) = remote_channel_map c"
    using output_conn_control [of c E buf] by (simp add: same_control_def)
  have t: "\<forall>res. run_tick E c = Some res \<longrightarrow>
        remote_channel_map (result_state res) = remote_channel_map c"
  proof (intro allI impI)
    fix res assume a: "run_tick E c = Some res"
    show "remote_channel_map (result_state res) = remote_channel_map c"
    proof (cases "next_tick c = 0")
      case True
      with a show ?thesis by (auto simp: run_tick_def)
    next
      case False
      with a have "process_loop E (c\<lparr>next_tick := next_tick c - 1, registered := False\<rparr>) = Some res"
        by (simp add: run_tick_def conn_process_def)
      from process_loop_sched [OF this] show ?thesis by simp
    qed
  qed
  have b: "(remote_channel (performative f) = None \<longrightarrow>
      \<not> is_thrown (on_begin f c)
      \<and> remote_channel_map (result_state (on_begin f c)) =
          (remote_channel_map c)(channel f \<mapsto> length (sessions c)))
   \<and> (remote_channel (performative f) = Some r \<and> map_of (local_channel_map c) r = Some sid \<longrightarrow>
      \<not> is_thrown (on_begin f c)
      \<and> remote_channel_map (result_state (on_begin f c)) = (remote_channel_map c)(channel f \<mapsto> sid))
   \<and> (remote_channel (performative f) = Some r \<and> map_of (local_channel_map c) r = None \<longrightarrow>
      is_thrown (on_begin f c)
      \<and> remote_channel_map (result_state (on_begin f c)) = remote_channel_map c)"
    by (simp add: on_begin_def Let_def create_session_def)
  show ?thesis
    using b o t process_pass_sched [of E c]
    by (simp add: create_session_def Let_def)
qed

text \<open>
  The three cases of \<open>on_begin\<close> on a connection with one session, and a processing pass
  that returns.
\<close>

theorem remote_binding_by_begin_witness:
  "remote_channel (performative (begin_frame 0 None)) = None
   \<and> remote_channel_map one_begun 0 = Some 0
   \<and> remote_channel_map (result_state (on_begin (begin_frame 0 None) one_begun)) 0 = Some 1
   \<and> remote_channel (performative (begin_frame 7 (Some 0))) = Some 0
   \<and> map_of (local_channel_map one_begun) 0 = Some 0
   \<and> remote_channel_map (result_state (on_begin (begin_frame 7 (Some 0)) one_begun)) = [0 \<mapsto> 0, 7 \<mapsto> 0]
   \<and> remote_channel (performative (begin_frame 7 (Some 4))) = Some 4
   \<and> map_of (local_channel_map one_begun) 4 = None
   \<and> remote_channel_map (result_state (on_begin (begin_frame 7 (Some 4)) one_begun)) = [0 \<mapsto> 0]
   \<and> (\<exists>res. run_tick tracker_codec closing = Some res
         \<and> remote_channel_map (result_state res) = remote_channel_map closing)"
proof -
  have t: "\<exists>res. run_tick tracker_codec closing = Some res" using closing_tick by blast
  show ?thesis
    using remote_binding_by_begin [of "begin_frame 0 None" one_begun 0 0 End tracker_codec "[]"]
      remote_binding_by_begin [of "begin_frame 7 (Some 0)" one_begun 0 0 End tracker_codec "[]"]
      remote_binding_by_begin [of "begin_frame 7 (Some 4)" one_begun 4 0 End tracker_codec "[]"]
      remote_binding_by_begin [of "begin_frame 0 None" closing 0 0 End tracker_codec "[]"] t
    by (auto simp: begin_frame_def one_begun_fields)
qed

section \<open>Scheduling\<close>









lemma frames_loop_preserves:
  assumes step: "\<And>f c. P c \<Longrightarrow> P (result_state (dispatch_frame E f c))"
    and upd: "\<And>c x. P c \<Longrightarrow> P (c\<lparr>previous_input := x\<rparr>)"
    and run: "frames_loop E b off c = Some r"
    and start: "P c"
  shows "P (result_state r)"
proof -
  have "E = E \<longrightarrow> P c \<longrightarrow> P (result_state r)"
  proof (rule frames_loop.raw_induct [OF _ run,
        where P = "\<lambda>E' b off c r. E' = E \<longrightarrow> P c \<longrightarrow> P (result_state r)"])
    fix loop :: "'a collab \<Rightarrow> buffer \<Rightarrow> nat \<Rightarrow> 'a connection \<Rightarrow> 'a connection result option"
      and E' b off c r
    assume IH: "\<And>E' b off c r. loop E' b off c = Some r \<Longrightarrow>
        E' = E \<longrightarrow> P c \<longrightarrow> P (result_state r)"
      and body: "(if off < length b then
        (case readUInt32BE b off of
           None \<Rightarrow> Some (Thrown RangeError c)
         | Some frame_size \<Rightarrow>
             if length b < off + frame_size then
               Some (Done (c\<lparr>previous_input := Some (drop off b)\<rparr>))
             else
               (case read_frame E' (slice b off (off + frame_size)) of
                  Inl e \<Rightarrow> Some (Thrown e c)
                | Inr f \<Rightarrow>
                    (case dispatch_frame E' f c of
                       Done c1 \<Rightarrow> loop E' b (off + frame_size) c1
                     | Thrown e c1 \<Rightarrow> Some (Thrown e c1))))
      else Some (Done c)) = Some r"
    show "E' = E \<longrightarrow> P c \<longrightarrow> P (result_state r)"
    proof (intro impI)
      assume e: "E' = E" and inv: "P c"
      show "P (result_state r)"
      proof (cases "off < length b")
        case False
        with body inv show ?thesis by auto
      next
        case lt: True
        show ?thesis
        proof (cases "readUInt32BE b off")
          case None
          with body lt inv show ?thesis by auto
        next
          case (Some n)
          show ?thesis
          proof (cases "length b < off + n")
            case True
            with body lt Some upd [OF inv] show ?thesis by auto
          next
            case ge: False
            show ?thesis
            proof (cases "read_frame E (slice b off (off + n))")
              case (Inl x)
              with body lt Some ge inv e show ?thesis by auto
            next
              case (Inr f)
              have d: "P (result_state (dispatch_frame E f c))"
                by (rule step [OF inv])
              show ?thesis
              proof (cases "dispatch_frame E f c")
                case (Thrown x c1)
                with body lt Some ge Inr d e show ?thesis by auto
              next
                case (Done c1)
                with body lt Some ge Inr e have "loop E b (off + n) c1 = Some r" by simp
                from IH [OF this] d Done show ?thesis by simp
              qed
            qed
          qed
        qed
      qed
    qed
  qed
  with start show ?thesis by simp
qed

lemma input_preserves:
  assumes step: "\<And>f c. P c \<Longrightarrow> P (result_state (dispatch_frame E f c))"
    and upd: "\<And>c x. P c \<Longrightarrow> P (c\<lparr>previous_input := x\<rparr>)"
    and hdr: "\<And>c y. P c \<Longrightarrow> P (c\<lparr>header_received := y\<rparr>)"
    and run: "input E buff c = Some r"
    and start: "P c"
  shows "P (result_state r)"
proof (cases "previous_input c")
  case (Some p)
  with run start show ?thesis by (auto simp: input_def)
next
  case None
  show ?thesis
  proof (cases "header_received c")
    case (Some h)
    with None run have "frames_loop E buff 0 c = Some r" by (simp add: input_def)
    then show ?thesis using start by (intro frames_loop_preserves [of P E buff 0 c r] step upd)
  next
    case nh: None
    show ?thesis
    proof (cases "length buff < 8")
      case True
      with None nh run upd [OF start] show ?thesis by (auto simp: input_def)
    next
      case False
      show ?thesis
      proof (cases "read_header E buff")
        case (Inl e)
        with None nh False run start show ?thesis by (auto simp: input_def)
      next
        case (Inr h)
        with None nh False run
        have "frames_loop E buff 8 (c\<lparr>header_received := Some h\<rparr>) = Some r"
          by (simp add: input_def)
        then show ?thesis
          using hdr [OF start]
          by (intro frames_loop_preserves [of P E buff 8 "c\<lparr>header_received := Some h\<rparr>" r] step upd)
      qed
    qed
  qed
qed







section \<open>Structure of the reachable connections\<close>

text \<open>
  On every reachable connection different channels of the local channel map hold
  different sessions, and a connection with a socket has its queue: the two hypotheses of
  the theorem on the processing pass below.
\<close>

lemma update_new_key: "map_of m k = None \<Longrightarrow> AList.update k v m = m @ [(k, v)]"
  by (induction m) (auto split: if_splits)

lemma create_session_store_inv: "store_inv c \<Longrightarrow> store_inv (snd (create_session c))"
proof -
  assume a: "store_inv c"
  let ?i = "first_free (local_channel_map c) 0"
  have "AList.update ?i (length (sessions c)) (local_channel_map c) =
      local_channel_map c @ [(?i, length (sessions c))]"
    by (rule update_new_key) (rule first_free_free)
  moreover have "length (sessions c) \<notin> snd ` set (local_channel_map c)"
    using a by (auto simp: store_inv_def)
  ultimately show ?thesis
    using a by (auto simp: store_inv_def create_session_def Let_def less_Suc_eq)
qed

lemma store_inv_kept:
  "store_inv c \<Longrightarrow> local_channel_map c' = local_channel_map c \<Longrightarrow>
   length (sessions c') = length (sessions c) \<Longrightarrow>
   (socket c' = None \<longleftrightarrow> socket c = None) \<Longrightarrow>
   (pending c' = None \<longleftrightarrow> pending c = None) \<Longrightarrow> store_inv c'"
  by (simp add: store_inv_def)

lemma on_begin_store_inv: "store_inv c \<Longrightarrow> store_inv (result_state (on_begin f c))"
proof -
  assume a: "store_inv c"
  have n: "store_inv (snd (create_session c))" using a by (rule create_session_store_inv)
  show ?thesis
  proof (cases "remote_channel (performative f)")
    case None
    obtain sid c1 where cs: "create_session c = (sid, c1)" by (cases "create_session c")
    with n have c1: "store_inv c1" by simp
    show ?thesis
      by (rule store_inv_kept [OF c1]) (simp_all add: None cs on_begin_def Let_def session_on_def)
  next
    case (Some r)
    show ?thesis
    proof (cases "map_of (local_channel_map c) r")
      case None
      with Some a show ?thesis by (simp add: on_begin_def)
    next
      case sid: (Some sid)
      show ?thesis
        by (rule store_inv_kept [OF a]) (simp_all add: Some sid on_begin_def Let_def session_on_def)
    qed
  qed
qed

lemma dispatch_frame_store_inv: "store_inv c \<Longrightarrow> store_inv (result_state (dispatch_frame E f c))"
proof -
  assume a: "store_inv c"
  have o: "store_inv (result_state (on_open E f c))"
    by (rule store_inv_kept [OF a])
       (simp_all add: on_open_def Let_def open_conn_fields dispatch_fields split: prod.splits)
  have cl: "store_inv (result_state (on_close E f c))"
    by (rule store_inv_kept [OF a])
       (simp_all add: on_close_def Let_def close_conn_fields dispatch_fields split: prod.splits)
  have d: "store_inv (result_state (delegate_to_session n f c))" for n
    by (rule store_inv_kept [OF a])
       (simp_all add: delegate_to_session_def session_on_def split: option.splits)
  show ?thesis
    by (cases "descriptor (performative f)")
       (simp_all add: dispatch_frame_def o cl d on_begin_store_inv [OF a])
qed

lemma exec_store_inv:
  assumes "exec E a c = Some r" and "store_inv c"
  shows "store_inv (result_state r)"
proof (cases a)
  case Call_open
  have "store_inv (open_conn E c)"
    by (rule store_inv_kept [OF assms(2)]) (simp_all add: open_conn_fields)
  with Call_open assms(1) show ?thesis by auto
next
  case Call_close
  have "store_inv (close_conn E c)"
    by (rule store_inv_kept [OF assms(2)]) (simp_all add: close_conn_fields)
  with Call_close assms(1) show ?thesis by auto
next
  case Call_register
  have "store_inv (conn_register c)"
    by (rule store_inv_kept [OF assms(2)]) (simp_all add: conn_register_fields)
  with Call_register assms(1) show ?thesis by auto
next
  case (Call_init s)
  let ?c1 = "c\<lparr>socket := Some s,
      pending := Some [write_header E \<lparr>protocol_id = 0, major = 1, minor = 0, revision = 0\<rparr>]\<rparr>"
  have c1: "store_inv ?c1" using assms(2) by (simp add: store_inv_def)
  have "store_inv (open_conn E ?c1)"
    by (rule store_inv_kept [OF c1]) (simp_all add: open_conn_fields)
  then have "store_inv (init E s c)" by (simp add: init_def)
  with Call_init assms(1) show ?thesis by auto
next
  case (Call_output b)
  have sc: "same_control c (result_state (output_conn E b c))" by (rule output_conn_control)
  have "store_inv (result_state (output_conn E b c))"
    by (rule store_inv_kept [OF assms(2)]) (use sc in \<open>simp_all add: same_control_def\<close>)
  with Call_output assms(1) show ?thesis by auto
next
  case (Call_input b)
  with assms have run: "input E b c = Some r" by simp
  show ?thesis
  proof (rule input_preserves [of store_inv E, OF _ _ _ run assms(2)])
    show "store_inv (result_state (dispatch_frame E f c))" if "store_inv c" for f and c :: "'a connection"
      using that by (rule dispatch_frame_store_inv)
    show "store_inv (c\<lparr>previous_input := x\<rparr>)" if "store_inv c" for x and c :: "'a connection"
      using that by (simp add: store_inv_def)
    show "store_inv (c\<lparr>header_received := y\<rparr>)" if "store_inv c" for y and c :: "'a connection"
      using that by (simp add: store_inv_def)
  qed
next
  case Call_create_session
  with assms show ?thesis by (auto simp: create_session_store_inv)
next
  case (Call_frame f)
  with assms show ?thesis by (auto simp: dispatch_frame_store_inv)
next
  case Call_tick
  show ?thesis
  proof (cases "next_tick c = 0")
    case True
    with Call_tick assms show ?thesis by (auto simp: run_tick_def)
  next
    case False
    with Call_tick assms(1)
    have "process_loop E (c\<lparr>next_tick := next_tick c - 1, registered := False\<rparr>) = Some r"
      by (simp add: run_tick_def conn_process_def)
    note k = process_loop_kept [OF this]
    show ?thesis
      by (rule store_inv_kept [OF assms(2)]) (use k in \<open>simp_all add: kept_def\<close>)
  qed
qed

lemma reachable_store_inv:
  "reachable E c \<Longrightarrow>
     distinct (map snd (local_channel_map c)) \<and> (socket c \<noteq> None \<longrightarrow> pending c \<noteq> None)"
proof -
  assume "reachable E c"
  then have "store_inv c"
  proof (induction rule: reachable.induct)
    case (constructed cid uuid cont ls)
    show ?case by (simp add: store_inv_def Connection_def)
  next
    case (called c a r)
    then show ?case by (auto intro: exec_store_inv)
  qed
  then show ?thesis by (simp add: store_inv_def)
qed

section \<open>The processing pass\<close>

text \<open>
  On a connection whose queue exists and whose channels hold different sessions, one
  iteration of the loop of \<open>_process\<close> returns and puts on the wire, in this order: the
  open frame on channel 0 when the tracker's \<open>need_open\<close> answers yes, the pending output
  of the sessions of all keys of the local channel map, in ascending order of the keys,
  and the close frame on channel 0 when \<open>need_close\<close> answers yes; the loop ends after
  the iteration when \<open>has_settled\<close> holds and repeats otherwise. \<open>_process\<close> is this
  loop, run after the flag is cleared. When \<open>open()\<close> is a fresh transition and is
  followed by \<open>close()\<close> before the tick, and the tracker then reports open and close
  unsent, one pass is queued and its first iteration puts the open frame, the sessions'
  output and the close frame on the wire, in this order.
\<close>

lemma pass_writes_open_sessions_close:
  assumes "pending c \<noteq> None" and "distinct (map snd (local_channel_map c))"
  shows "(\<exists>c'. process_pass E c = Done c'
      \<and> wire c' = wire c
          @ (if fst (st_need_open E (state c)) then [write_amqp_frame E 0 (local_open c)] else [])
          @ session_frames E c (sorted_list_of_set (dom (map_of (local_channel_map c))))
          @ (if fst (st_need_close E (snd (st_need_open E (state c))))
             then [write_amqp_frame E 0 (local_close c)] else [])
      \<and> state c' = snd (st_need_close E (snd (st_need_open E (state c))))
      \<and> process_loop E c =
          (if st_has_settled E (state c') then Some (Done c') else process_loop E c'))
    \<and> conn_process E c = process_loop E (c\<lparr>registered := False\<rparr>)
    \<and> (\<not> registered c \<and> next_tick c = 0 \<and> fst (st_open E (state c))
        \<and> fst (st_need_open E (state (close_conn E (open_conn E c))))
        \<and> fst (st_need_close E (snd (st_need_open E (state (close_conn E (open_conn E c))))))
        \<longrightarrow> next_tick (close_conn E (open_conn E c)) = 1
          \<and> (\<exists>c'. process_pass E ((close_conn E (open_conn E c))\<lparr>next_tick := 0, registered := False\<rparr>)
                    = Done c'
                \<and> run_tick E (close_conn E (open_conn E c)) =
                    (if st_has_settled E (state c') then Some (Done c') else process_loop E c')
                \<and> wire c' = wire c @ [write_amqp_frame E 0 (local_open c)]
                    @ session_frames E c (sorted_list_of_set (dom (map_of (local_channel_map c))))
                    @ [write_amqp_frame E 0 (local_close c)]
                \<and> next_tick c' = 0 \<and> \<not> registered c'
                \<and> (socket c \<noteq> None \<longrightarrow>
                     pending c' = Some [] \<and> map_option written (socket c') = Some (wire c'))))"
proof (intro conjI impI)
  obtain c' where c': "process_pass E c = Done c'"
      "wire c' = wire c
          @ (if fst (st_need_open E (state c)) then [write_amqp_frame E 0 (local_open c)] else [])
          @ session_frames E c (keys (local_channel_map c))
          @ (if fst (st_need_close E (snd (st_need_open E (state c))))
             then [write_amqp_frame E 0 (local_close c)] else [])"
      "state c' = snd (st_need_close E (snd (st_need_open E (state c))))"
    using process_pass_wire [OF assms, of E] by blast
  have "process_loop E c = (if st_has_settled E (state c') then Some (Done c') else process_loop E c')"
    by (subst process_loop.simps) (simp add: c'(1))
  with c' show "\<exists>c'. process_pass E c = Done c'
      \<and> wire c' = wire c
          @ (if fst (st_need_open E (state c)) then [write_amqp_frame E 0 (local_open c)] else [])
          @ session_frames E c (sorted_list_of_set (dom (map_of (local_channel_map c))))
          @ (if fst (st_need_close E (snd (st_need_open E (state c))))
             then [write_amqp_frame E 0 (local_close c)] else [])
      \<and> state c' = snd (st_need_close E (snd (st_need_open E (state c))))
      \<and> process_loop E c =
          (if st_has_settled E (state c') then Some (Done c') else process_loop E c')"
    unfolding keys_ascending by blast
next
  show "conn_process E c = process_loop E (c\<lparr>registered := False\<rparr>)"
    by (simp add: conn_process_def)
next
  let ?d = "close_conn E (open_conn E c)"
  let ?e = "?d\<lparr>next_tick := 0, registered := False\<rparr>"
  assume h: "\<not> registered c \<and> next_tick c = 0 \<and> fst (st_open E (state c))
        \<and> fst (st_need_open E (state ?d))
        \<and> fst (st_need_close E (snd (st_need_open E (state ?d))))"
  show n1: "next_tick ?d = 1"
    using h by (simp add: close_conn_fields open_conn_fields)
  have same: "pending ?e = pending c" "local_channel_map ?e = local_channel_map c"
      "sessions ?e = sessions c" "local_open ?e = local_open c" "local_close ?e = local_close c"
      "state ?e = state ?d" "socket ?e = socket c"
    by (simp_all add: close_conn_fields open_conn_fields)
  have we: "wire ?e = wire c" by (simp add: wire_def same)
  have fr: "session_frames E ?e (keys (local_channel_map c)) = session_frames E c (keys (local_channel_map c))"
    by (rule session_frames_cong) (simp_all add: same)
  have pe: "pending ?e \<noteq> None" "distinct (map snd (local_channel_map ?e))"
    using assms by (simp_all add: same)
  obtain c' where c': "process_pass E ?e = Done c'"
      "wire c' = wire c @ [write_amqp_frame E 0 (local_open c)]
          @ session_frames E c (keys (local_channel_map c))
          @ [write_amqp_frame E 0 (local_close c)]"
      "state c' = snd (st_need_close E (snd (st_need_open E (state ?d))))"
      "registered c' = False" "next_tick c' = 0"
      "socket c \<noteq> None \<longrightarrow> pending c' = Some [] \<and> socket c' \<noteq> None"
    using process_pass_wire [OF pe, of E] h by (auto simp: same we fr)
  have "process_loop E ?e = (if st_has_settled E (state c') then Some (Done c') else process_loop E c')"
    by (subst process_loop.simps) (simp add: c'(1))
  then have rt: "run_tick E ?d = (if st_has_settled E (state c') then Some (Done c') else process_loop E c')"
    using n1 by (simp add: run_tick_def conn_process_def)
  have wr: "map_option written (socket c') = Some (wire c')" if "pending c' = Some []" "socket c' \<noteq> None"
    using that by (auto simp: wire_def)
  show "\<exists>c'. process_pass E ?e = Done c'
                \<and> run_tick E ?d =
                    (if st_has_settled E (state c') then Some (Done c') else process_loop E c')
                \<and> wire c' = wire c @ [write_amqp_frame E 0 (local_open c)]
                    @ session_frames E c (sorted_list_of_set (dom (map_of (local_channel_map c))))
                    @ [write_amqp_frame E 0 (local_close c)]
                \<and> next_tick c' = 0 \<and> \<not> registered c'
                \<and> (socket c \<noteq> None \<longrightarrow>
                     pending c' = Some [] \<and> map_option written (socket c') = Some (wire c'))"
    unfolding keys_ascending [symmetric] using rt c' wr by (intro exI [of _ c']) auto
qed

text \<open>
  C2. The pass writes through \<open>output\<close>, which throws on a connection that has no
  queue. The write of the open frame on a constructed connection, after \<open>open()\<close> and
  \<open>close()\<close>, throws a TypeError, for every collaborator. On the instance: \<open>open()\<close>
  followed by \<open>close()\<close> on a connection fresh from the constructor queues one pass,
  the tracker reports the open unsent, and the pass throws at its first write: neither
  the open frame nor the close frame reaches the wire.
\<close>

theorem process_before_init_throws:
  "conn_write_open E (close_conn E (open_conn E (Connection E cid uuid cont ls))) =
     Thrown TypeError (close_conn E (open_conn E (Connection E cid uuid cont ls)))
   \<and> next_tick (close_conn tracker_codec (open_conn tracker_codec fresh)) = 1
   \<and> fst (st_need_open tracker_codec (state (close_conn tracker_codec (open_conn tracker_codec fresh))))
   \<and> run_tick tracker_codec (close_conn tracker_codec (open_conn tracker_codec fresh)) =
       Some (Thrown TypeError
         ((close_conn tracker_codec (open_conn tracker_codec fresh))\<lparr>next_tick := 0, registered := False,
            state := snd (st_need_open tracker_codec
              (state (close_conn tracker_codec (open_conn tracker_codec fresh))))\<rparr>))
   \<and> wire ((close_conn tracker_codec (open_conn tracker_codec fresh))\<lparr>next_tick := 0, registered := False,
            state := snd (st_need_open tracker_codec
              (state (close_conn tracker_codec (open_conn tracker_codec fresh))))\<rparr>) = []"
proof (intro conjI)
  show "conn_write_open E (close_conn E (open_conn E (Connection E cid uuid cont ls))) =
     Thrown TypeError (close_conn E (open_conn E (Connection E cid uuid cont ls)))"
    by (simp add: conn_write_open_def conn_write_frame_def output_conn_def close_conn_fields
        open_conn_fields Connection_def)
  show "next_tick (close_conn tracker_codec (open_conn tracker_codec fresh)) = 1"
    by (simp add: close_conn_fields open_conn_fields fresh_fields tracker_codec_simps)
  show "fst (st_need_open tracker_codec (state (close_conn tracker_codec (open_conn tracker_codec fresh))))"
    by (simp add: close_conn_fields open_conn_fields fresh_fields tracker_codec_simps)
  show "run_tick tracker_codec (close_conn tracker_codec (open_conn tracker_codec fresh)) =
       Some (Thrown TypeError
         ((close_conn tracker_codec (open_conn tracker_codec fresh))\<lparr>next_tick := 0, registered := False,
            state := snd (st_need_open tracker_codec
              (state (close_conn tracker_codec (open_conn tracker_codec fresh))))\<rparr>))"
    apply (simp add: run_tick_def conn_process_def close_conn_fields open_conn_fields fresh_fields
        tracker_codec_simps)
    apply (subst process_loop.simps)
    apply (simp add: process_pass_def close_conn_fields open_conn_fields fresh_fields
        tracker_codec_simps conn_write_open_def conn_write_frame_def output_conn_def Let_def)
    done
  show "wire ((close_conn tracker_codec (open_conn tracker_codec fresh))\<lparr>next_tick := 0, registered := False,
            state := snd (st_need_open tracker_codec
              (state (close_conn tracker_codec (open_conn tracker_codec fresh))))\<rparr>) = []"
    by (simp add: wire_def close_conn_fields open_conn_fields fresh_fields)
qed

end
